theory Spec2Isabelle
  imports Complex_Main
begin

section \<open>JavaScript values used by the watermark pipeline\<close>

text \<open>
  A JavaScript string is a sequence of UTF-16 code units; a code unit is modelled as a
  natural number, so that the localized sentinel strings (which are not ASCII) and the
  Unicode white space removed by \<^verbatim>\<open>String.prototype.trim\<close> are covered.
  \<open>js\<close> embeds an ASCII literal.
\<close>

type_synonym jsstring = "nat list"

definition js :: "string \<Rightarrow> jsstring" where
  "js s = map of_char s"

text \<open>
  White space and line terminators of ECMAScript: the characters removed by
  \<^verbatim>\<open>trim\<close> and matched by \<^verbatim>\<open>\s\<close>.
\<close>

definition is_ws :: "nat \<Rightarrow> bool" where
  "is_ws c = (c = 9 \<or> c = 10 \<or> c = 11 \<or> c = 12 \<or> c = 13 \<or> c = 32 \<or> c = 160
     \<or> c = 5760 \<or> (8192 \<le> c \<and> c \<le> 8202) \<or> c = 8232 \<or> c = 8233 \<or> c = 8239
     \<or> c = 8287 \<or> c = 12288 \<or> c = 65279)"

text \<open>\<^verbatim>\<open>\d\<close>: the ASCII digits only.\<close>

definition is_digit :: "nat \<Rightarrow> bool" where
  "is_digit c = (48 \<le> c \<and> c \<le> 57)"

definition trim :: "jsstring \<Rightarrow> jsstring" where
  "trim s = rev (dropWhile is_ws (rev (dropWhile is_ws s)))"

text \<open>
  Numbers. The quantities of the layout arithmetic (the font size of the range input,
  the bitmap dimensions, the measured text widths) are finite, and are modelled as exact
  reals and integers: the factors 1.4, 0.7, 0.5 and 0.01 are the decimal fractions, and
  the rounding error of double precision is left out. \<^verbatim>\<open>Math.round\<close> rounds half up.
  Over the font sizes of the range input, 10 to 100, the doubles of the code give another
  value in one place only: the product with 0.7 at the sizes 45 and 85 falls just below
  the tie, so that the code pads by 31 and 59 where the exact product gives 32 and 60.
  A number read from a metadata tag may be NaN or infinite, so those have a type of
  their own.
\<close>

definition Math_round :: "real \<Rightarrow> int" where
  "Math_round x = \<lfloor>x + 1 / 2\<rfloor>"

datatype jsnum = Fin real | PosInf | NegInf | NaN

datatype jsval =
    VUndefined
  | VNull
  | VBool bool
  | VNum jsnum
  | VStr jsstring
  | VArr "jsval list"

subsection \<open>Regular expressions\<close>

text \<open>
  The two patterns of the source are anchored at both ends and use no flag, so
  \<^verbatim>\<open>pattern.test(s)\<close> holds exactly when the whole of \<open>s\<close> is in the language of
  the pattern. Patterns are values of \<open>rx\<close>; matching is by derivatives.
\<close>

datatype rx =
    Fail
  | Empty
  | Class "nat \<Rightarrow> bool"
  | Or rx rx
  | Then rx rx
  | Many rx

fun accepts_empty :: "rx \<Rightarrow> bool" where
  "accepts_empty Fail = False"
| "accepts_empty Empty = True"
| "accepts_empty (Class p) = False"
| "accepts_empty (Or r s) = (accepts_empty r \<or> accepts_empty s)"
| "accepts_empty (Then r s) = (accepts_empty r \<and> accepts_empty s)"
| "accepts_empty (Many r) = True"

fun after :: "nat \<Rightarrow> rx \<Rightarrow> rx" where
  "after c Fail = Fail"
| "after c Empty = Fail"
| "after c (Class p) = (if p c then Empty else Fail)"
| "after c (Or r s) = Or (after c r) (after c s)"
| "after c (Then r s) =
     (if accepts_empty r then Or (Then (after c r) s) (after c s)
      else Then (after c r) s)"
| "after c (Many r) = Then (after c r) (Many r)"

fun rx_test :: "rx \<Rightarrow> jsstring \<Rightarrow> bool" where
  "rx_test r [] = accepts_empty r"
| "rx_test r (c # cs) = rx_test (after c r) cs"

definition lit :: "nat \<Rightarrow> rx" where
  "lit c = Class (\<lambda>x. x = c)"

definition opt :: "rx \<Rightarrow> rx" where
  "opt r = Or r Empty"

definition some :: "rx \<Rightarrow> rx" where
  "some r = Then r (Many r)"

text \<open>\<^verbatim>\<open>-?\d+(?:\.\d+)?\<close>\<close>

definition decimal_rx :: rx where
  "decimal_rx =
     Then (opt (lit 45)) (Then (some (Class is_digit)) (opt (Then (lit 46) (some (Class is_digit)))))"

text \<open>\<^verbatim>\<open>/^-?\d+(?:\.\d+)?\s*,\s*-?\d+(?:\.\d+)?$/\<close>\<close>

definition numeric_pair_rx :: rx where
  "numeric_pair_rx =
     Then decimal_rx (Then (Many (Class is_ws)) (Then (lit 44) (Then (Many (Class is_ws)) decimal_rx)))"

section \<open>Metadata extraction\<close>

text \<open>
  A tag of the parsed metadata block carries a raw \<open>value\<close> and a \<open>description\<close>; a tag
  set has a field for each tag the pipeline reads, absent when the block lacks it.
\<close>

record tag =
  tag_value :: jsval
  description :: jsval

record Tags =
  DateTimeOriginal :: "tag option"
  DateTimeDigitized :: "tag option"
  DateTime :: "tag option"
  GPSLatitude :: "tag option"
  GPSLongitude :: "tag option"
  GPSLatitudeRef :: "tag option"
  GPSLongitudeRef :: "tag option"

text \<open>\<^verbatim>\<open>t?.description\<close> and \<^verbatim>\<open>t?.value\<close>\<close>

definition opt_description :: "tag option \<Rightarrow> jsval" where
  "opt_description t = (case t of None \<Rightarrow> VUndefined | Some x \<Rightarrow> description x)"

definition opt_value :: "tag option \<Rightarrow> jsval" where
  "opt_value t = (case t of None \<Rightarrow> VUndefined | Some x \<Rightarrow> tag_value x)"

text \<open>\<^verbatim>\<open>a ?? b\<close>: the right operand only when the left one is null or undefined.\<close>

definition nullish :: "jsval \<Rightarrow> jsval \<Rightarrow> jsval" where
  "nullish a b = (if a = VUndefined \<or> a = VNull then b else a)"

text \<open>
  \<^verbatim>\<open>s.replace(/^(\d{4}):(\d{2}):(\d{2})/, "$1-$2-$3")\<close>: the pattern has a fixed
  width of ten characters and is anchored at the start.
\<close>

definition date_prefix :: "jsstring \<Rightarrow> bool" where
  "date_prefix s =
     (10 \<le> length s
      \<and> list_all is_digit (take 4 s) \<and> s ! 4 = 58
      \<and> list_all is_digit (take 2 (drop 5 s)) \<and> s ! 7 = 58
      \<and> list_all is_digit (take 2 (drop 8 s)))"

definition replace_date :: "jsstring \<Rightarrow> jsstring" where
  "replace_date s =
     (if date_prefix s
      then take 4 s @ [45] @ take 2 (drop 5 s) @ [45] @ take 2 (drop 8 s) @ drop 10 s
      else s)"

definition formatExifDate :: "jsval \<Rightarrow> jsstring \<Rightarrow> jsstring" where
  "formatExifDate raw fallback =
     (case raw of
        VStr s \<Rightarrow> if length (trim s) = 0 then fallback else replace_date (trim s)
      | _ \<Rightarrow> fallback)"

text \<open>The timestamp expression of \<^verbatim>\<open>onDrop\<close>.\<close>

definition shotAt_of_tags :: "Tags \<Rightarrow> jsstring \<Rightarrow> jsstring" where
  "shotAt_of_tags tags unknownDate =
     formatExifDate
       (nullish (nullish (opt_description (DateTimeOriginal tags))
                         (opt_description (DateTimeDigitized tags)))
                (opt_description (DateTime tags)))
       unknownDate"

record GpsCoord =
  lat :: real
  lon :: real

text \<open>The local helper \<^verbatim>\<open>toNumber\<close> of \<^verbatim>\<open>parseExifGps\<close>.\<close>

fun toNumber :: "jsval \<Rightarrow> jsnum option" where
  "toNumber (VNum n) = Some n"
| "toNumber (VArr (VNum n # rest)) = Some n"
| "toNumber v = None"

text \<open>\<^verbatim>\<open>-Math.abs(n)\<close>\<close>

fun neg_abs :: "jsnum \<Rightarrow> jsnum" where
  "neg_abs (Fin x) = Fin (- \<bar>x\<bar>)"
| "neg_abs PosInf = NegInf"
| "neg_abs NegInf = NegInf"
| "neg_abs NaN = NaN"

definition parseExifGps :: "Tags \<Rightarrow> GpsCoord option" where
  "parseExifGps tags =
     (let latV = opt_value (GPSLatitude tags);
          lonV = opt_value (GPSLongitude tags);
          latRef = opt_description (GPSLatitudeRef tags);
          lonRef = opt_description (GPSLongitudeRef tags)
      in case (toNumber latV, toNumber lonV) of
           (Some latN, Some lonN) \<Rightarrow>
             (let signedLat = (if latRef = VStr (js ''S'') then neg_abs latN else latN);
                  signedLon = (if lonRef = VStr (js ''W'') then neg_abs lonN else lonN)
              in case (signedLat, signedLon) of
                   (Fin a, Fin b) \<Rightarrow> Some \<lparr>lat = a, lon = b\<rparr>
                 | _ \<Rightarrow> None)
         | _ \<Rightarrow> None)"

section \<open>Drafts, results and ingestion\<close>

text \<open>
  Decimal rendering of an integer, as a template literal renders an index or a
  time stamp, and \<^verbatim>\<open>toFixed(6)\<close>: the sign first, then the magnitude rounded half up to
  six fractional digits. (Beyond \<open>10\<^sup>2\<^sup>1\<close> JavaScript switches to exponent notation; list
  indices, time stamps in milliseconds and coordinates are far below.)
\<close>

function decimal :: "nat \<Rightarrow> jsstring" where
  "decimal n = (if n < 10 then [48 + n] else decimal (n div 10) @ [48 + n mod 10])"
  by pat_completeness auto
termination
  by (relation "measure (\<lambda>n. n)") auto

declare decimal.simps [simp del]

definition int_toString :: "int \<Rightarrow> jsstring" where
  "int_toString i = (if i < 0 then 45 # decimal (nat (- i)) else decimal (nat i))"

definition toFixed6 :: "real \<Rightarrow> jsstring" where
  "toFixed6 x =
     (let n = nat \<lfloor>\<bar>x\<bar> * 1000000 + 1 / 2\<rfloor>;
          frac = decimal (n mod 1000000)
      in (if x < 0 then [45] else []) @ decimal (n div 1000000) @ [46]
           @ replicate (6 - length frac) 48 @ frac)"

text \<open>
  A dropped file: its name, its time stamp and what \<^verbatim>\<open>ExifReader.load\<close> makes of its
  bytes (\<open>None\<close> when reading or parsing throws).
\<close>

record File =
  file_name :: jsstring
  lastModified :: int
  exif :: "Tags option"

record PhotoDraft =
  photo_id :: jsstring
  file' :: File
  name :: jsstring
  shotAt :: jsstring
  locationText :: jsstring
  sourceUrl :: jsstring
  dateLabel :: jsstring
  locationLabel :: jsstring
  gps :: "GpsCoord option"
  isGeocoding :: bool

record ProcessedPhoto =
  result_id :: jsstring
  result_name :: jsstring
  outputUrl :: jsstring
  result_shotAt :: jsstring
  result_locationText :: jsstring

text \<open>The translated strings the component reads through \<^verbatim>\<open>t(...)\<close>.\<close>

record Messages =
  unknownDate :: jsstring
  unknownLocation :: jsstring
  processFailed :: jsstring

text \<open>
  The state of the component. \<open>requests\<close> is the log of the calls made to the
  geocoding service, in order.
\<close>

record app =
  photos :: "PhotoDraft list"
  processed :: "ProcessedPhoto list"
  progress :: "nat \<times> nat"
  isProcessing :: bool
  errorMsg :: jsstring
  geocodeCache :: "jsstring \<rightharpoonup> jsstring"
  requests :: "GpsCoord list"

text \<open>The callback mapped over the accepted files in \<^verbatim>\<open>onDrop\<close>.\<close>

definition draft_of_file :: "Messages \<Rightarrow> (File \<Rightarrow> jsstring) \<Rightarrow> File \<Rightarrow> nat \<Rightarrow> PhotoDraft" where
  "draft_of_file msgs createObjectURL f index =
     (let ident = file_name f @ [45] @ decimal index @ [45] @ int_toString (lastModified f)
      in case exif f of
           Some tags \<Rightarrow>
             (let sh = shotAt_of_tags tags (unknownDate msgs);
                  g = parseExifGps tags;
                  fallbackLocation =
                    (case g of
                       Some c \<Rightarrow> toFixed6 (lat c) @ [44, 32] @ toFixed6 (lon c)
                     | None \<Rightarrow> unknownLocation msgs)
              in \<lparr>photo_id = ident, file' = f, name = file_name f, shotAt = sh,
                  locationText = fallbackLocation, sourceUrl = createObjectURL f,
                  dateLabel = [], locationLabel = [], gps = g, isGeocoding = False\<rparr>)
         | None \<Rightarrow>
             \<lparr>photo_id = ident, file' = f, name = file_name f, shotAt = unknownDate msgs,
              locationText = unknownLocation msgs, sourceUrl = createObjectURL f,
              dateLabel = [], locationLabel = [], gps = None, isGeocoding = False\<rparr>)"

definition parse_files :: "Messages \<Rightarrow> (File \<Rightarrow> jsstring) \<Rightarrow> File list \<Rightarrow> PhotoDraft list" where
  "parse_files msgs createObjectURL acceptedFiles =
     map (\<lambda>(f, index). draft_of_file msgs createObjectURL f index)
       (zip acceptedFiles [0 ..< length acceptedFiles])"

section \<open>Reverse geocoding\<close>

datatype json =
    JNull
  | JBool bool
  | JNumber real
  | JString jsstring
  | JArray "json list"
  | JObject "(jsstring \<times> json) list"

text \<open>
  What \<^verbatim>\<open>fetch\<close> gives: a rejection, or a response with its \<^verbatim>\<open>ok\<close> flag and its
  body (\<open>None\<close> when the body is not JSON, so that \<^verbatim>\<open>res.json()\<close> rejects).
\<close>

datatype fetch_outcome = NetworkFailure | Response bool "json option"

datatype js_error = TypeError | SyntaxError

text \<open>Reading the property \<^verbatim>\<open>display_name\<close> of a parsed body.\<close>

fun display_name_of :: "json \<Rightarrow> js_error + json option" where
  "display_name_of JNull = Inl TypeError"
| "display_name_of (JObject members) = Inr (map_of (rev members) (js ''display_name''))"
| "display_name_of v = Inr None"

definition reverseGeocode :: "fetch_outcome \<Rightarrow> js_error + jsstring option" where
  "reverseGeocode outcome =
     (case outcome of
        NetworkFailure \<Rightarrow> Inl TypeError
      | Response ok body \<Rightarrow>
          if \<not> ok then Inr None
          else (case body of
                  None \<Rightarrow> Inl SyntaxError
                | Some v \<Rightarrow>
                    (case display_name_of v of
                       Inl e \<Rightarrow> Inl e
                     | Inr (Some (JString d)) \<Rightarrow> Inr (Some d)
                     | Inr other \<Rightarrow> Inr None)))"

definition cache_key :: "GpsCoord \<Rightarrow> jsstring" where
  "cache_key g = toFixed6 (lat g) @ [44] @ toFixed6 (lon g)"

text \<open>\<^verbatim>\<open>setPhotos((prev) => prev.map((p) => (p.id === photoId ? ... : p)))\<close>\<close>

definition update_photo :: "jsstring \<Rightarrow> (PhotoDraft \<Rightarrow> PhotoDraft) \<Rightarrow> app \<Rightarrow> app" where
  "update_photo photoId f s =
     s\<lparr>photos := map (\<lambda>p. if photo_id p = photoId then f p else p) (photos s)\<rparr>"

text \<open>The value of \<^verbatim>\<open>cached\<close> when it is truthy.\<close>

definition cache_hit :: "app \<Rightarrow> GpsCoord \<Rightarrow> jsstring option" where
  "cache_hit s g =
     (case geocodeCache s (cache_key g) of
        Some c \<Rightarrow> if c \<noteq> [] then Some c else None
      | None \<Rightarrow> None)"

text \<open>
  \<^verbatim>\<open>triggerReverseGeocode\<close> is an asynchronous function with one point of suspension,
  the request. It is modelled by its two synchronous parts: \<open>geocode_begin\<close> runs from
  the call to the request (the cache is read here, and on a hit the function returns),
  and \<open>geocode_settle\<close> runs once the request has settled (the cache is written here).
  Other handlers run between the two; among them are the first parts of the other
  resolutions of the same drop, all of which \<^verbatim>\<open>onDrop\<close> starts before any request
  settles. \<open>outcome\<close> is what the service answered.
\<close>

definition geocode_begin :: "jsstring \<Rightarrow> GpsCoord \<Rightarrow> app \<Rightarrow> app" where
  "geocode_begin photoId g s =
     (case cache_hit s g of
        Some cached \<Rightarrow>
          update_photo photoId (\<lambda>p. p\<lparr>locationText := cached, isGeocoding := False\<rparr>) s
      | None \<Rightarrow>
          (update_photo photoId (\<lambda>p. p\<lparr>isGeocoding := True\<rparr>) s)\<lparr>requests := requests s @ [g]\<rparr>)"

definition geocode_settle :: "jsstring \<Rightarrow> GpsCoord \<Rightarrow> fetch_outcome \<Rightarrow> app \<Rightarrow> app" where
  "geocode_settle photoId g outcome s =
     (case reverseGeocode outcome of
        Inr (Some text) \<Rightarrow>
          if text \<noteq> []
          then update_photo photoId (\<lambda>p. p\<lparr>locationText := text, isGeocoding := False\<rparr>)
                 (s\<lparr>geocodeCache := (geocodeCache s)(cache_key g \<mapsto> text)\<rparr>)
          else update_photo photoId (\<lambda>p. p\<lparr>isGeocoding := False\<rparr>) s
      | Inr None \<Rightarrow> update_photo photoId (\<lambda>p. p\<lparr>isGeocoding := False\<rparr>) s
      | Inl e \<Rightarrow> update_photo photoId (\<lambda>p. p\<lparr>isGeocoding := False\<rparr>) s)"

text \<open>
  The effect of \<^verbatim>\<open>onDrop\<close> up to the point where the requests are out: the error
  message is reset, the parsed drafts are appended to the pending list, and a resolution
  is begun for every draft with a coordinate.
\<close>

definition onDrop :: "Messages \<Rightarrow> (File \<Rightarrow> jsstring) \<Rightarrow> File list \<Rightarrow> app \<Rightarrow> app" where
  "onDrop msgs createObjectURL acceptedFiles s =
     (let parsed = parse_files msgs createObjectURL acceptedFiles
      in fold (\<lambda>item st. case gps item of None \<Rightarrow> st | Some g \<Rightarrow> geocode_begin (photo_id item) g st)
           parsed (s\<lparr>errorMsg := [], photos := photos s @ parsed\<rparr>))"

section \<open>Overlay lines and layout\<close>

record WorkerSettings =
  fontFamily :: jsstring
  fontSize :: real
  textColor :: "real \<times> real \<times> real \<times> real"
  showLocation :: bool
  unknownLocationText :: jsstring

text \<open>\<^verbatim>\<open>isUnknownLocationText(text, tUnknown)\<close>\<close>

definition isUnknownLocationText :: "jsstring \<Rightarrow> jsstring \<Rightarrow> bool" where
  "isUnknownLocationText text tUnknown =
     (let trimmed = trim text in
      if trimmed = [] then True
      else if trimmed = tUnknown then True
      else if rx_test numeric_pair_rx trimmed then True
      else False)"

text \<open>
  What one rasterization draws: the text lines and the geometry of the backing panel.
\<close>

record overlay =
  lines :: "jsstring list"
  fontSizePx :: int
  lineHeight :: int
  padX :: int
  padY :: int
  margin :: int
  boxWidth :: int
  boxHeight :: int
  boxX :: int
  boxY :: int

text \<open>
  \<^verbatim>\<open>processOne\<close> of the worker script, on the copy of a draft that the worker is sent.
  \<open>measureText t\<close> is \<^verbatim>\<open>ctx.measureText(t).width\<close> under the font just set; \<open>w\<close> and
  \<open>h\<close> are the dimensions of the decoded bitmap. \<^verbatim>\<open>filter(Boolean)\<close> drops the empty
  strings.
\<close>

definition processOne ::
  "(jsstring \<Rightarrow> real) \<Rightarrow> int \<Rightarrow> int \<Rightarrow> WorkerSettings \<Rightarrow> PhotoDraft \<Rightarrow> overlay" where
  "processOne measureText w h settings item =
     (let unknown = (locationText item = unknownLocationText settings
                      \<or> rx_test numeric_pair_rx (trim (locationText item)));
          ls = filter (\<lambda>l. l \<noteq> [])
                 [shotAt item,
                  if showLocation settings \<and> \<not> unknown then locationText item else []];
          fs = max 10 (Math_round (fontSize settings));
          lh = Math_round (real_of_int fs * (14 / 10));
          px = Math_round (real_of_int fs * (7 / 10));
          py = Math_round (real_of_int fs * (5 / 10));
          mg = max 16 (Math_round (real_of_int w * (1 / 100)));
          maxWidth = foldl (\<lambda>m text. max m (measureText text)) 0 ls;
          bw = Math_round (maxWidth + real_of_int (px * 2));
          bh = Math_round (real_of_int (int (length ls) * lh + py * 2));
          x = max 0 (w - bw - mg);
          y = max 0 (h - bh - mg)
      in \<lparr>lines = ls, fontSizePx = fs, lineHeight = lh, padX = px, padY = py, margin = mg,
          boxWidth = bw, boxHeight = bh, boxX = x, boxY = y\<rparr>)"

text \<open>The body of the loop of \<^verbatim>\<open>processInMainThread\<close>, for one draft.\<close>

definition processInMainThread_item ::
  "(jsstring \<Rightarrow> real) \<Rightarrow> int \<Rightarrow> int \<Rightarrow> WorkerSettings \<Rightarrow> PhotoDraft \<Rightarrow> overlay" where
  "processInMainThread_item measureText w h settings item =
     (let ls0 = filter (\<lambda>l. l \<noteq> []) [shotAt item];
          unknown = isUnknownLocationText (locationText item) (unknownLocationText settings);
          ls = (if showLocation settings \<and> \<not> unknown then ls0 @ [locationText item] else ls0);
          fs = max 10 (Math_round (fontSize settings));
          lh = Math_round (real_of_int fs * (14 / 10));
          px = Math_round (real_of_int fs * (7 / 10));
          py = Math_round (real_of_int fs * (5 / 10));
          mg = max 16 (Math_round (real_of_int w * (1 / 100)));
          maxWidth = foldl (\<lambda>m text. max m (measureText text)) 0 ls;
          bw = Math_round (maxWidth + real_of_int (px * 2));
          bh = Math_round (real_of_int (int (length ls) * lh + py * 2));
          x = max 0 (w - bw - mg);
          y = max 0 (h - bh - mg)
      in \<lparr>lines = ls, fontSizePx = fs, lineHeight = lh, padX = px, padY = py, margin = mg,
          boxWidth = bw, boxHeight = bh, boxX = x, boxY = y\<rparr>)"

text \<open>
  The arithmetic that both routines apply to their lines (lines 173 to 185 of the worker
  script and lines 256 to 267 of the fallback are the same text), as a function of the
  lines. It serves to state what the two definitions above have in common.
\<close>

definition panel ::
  "(jsstring \<Rightarrow> real) \<Rightarrow> int \<Rightarrow> int \<Rightarrow> WorkerSettings \<Rightarrow> jsstring list \<Rightarrow> overlay" where
  "panel measureText w h settings ls =
     (let fs = max 10 (Math_round (fontSize settings));
          lh = Math_round (real_of_int fs * (14 / 10));
          px = Math_round (real_of_int fs * (7 / 10));
          py = Math_round (real_of_int fs * (5 / 10));
          mg = max 16 (Math_round (real_of_int w * (1 / 100)));
          maxWidth = foldl (\<lambda>m text. max m (measureText text)) 0 ls;
          bw = Math_round (maxWidth + real_of_int (px * 2));
          bh = Math_round (real_of_int (int (length ls) * lh + py * 2));
          x = max 0 (w - bw - mg);
          y = max 0 (h - bh - mg)
      in \<lparr>lines = ls, fontSizePx = fs, lineHeight = lh, padX = px, padY = py, margin = mg,
          boxWidth = bw, boxHeight = bh, boxX = x, boxY = y\<rparr>)"

section \<open>The batch run\<close>

text \<open>
  The messages the worker posts, and the events its handle delivers to the page. A
  \<open>Result\<close> carries the result entry the handler builds from the payload (its output URL
  stands for the URL created for the blob).
\<close>

datatype WorkerMsg =
    Progress nat nat
  | Result ProcessedPhoto
  | ErrorMsg jsstring
  | Complete

datatype worker_event = Message WorkerMsg | ErrorEvent | MessageErrorEvent

text \<open>
  The message handler of the worker script: the photos in order, a progress and a result
  message for each, then \<open>Complete\<close>; the first photo whose rasterization throws ends the
  loop with an \<open>ErrorMsg\<close>, and nothing is posted after it. \<open>rasterize\<close> gives the error
  message or the URL of the exported blob.
\<close>

fun worker_messages ::
  "(PhotoDraft \<Rightarrow> jsstring + jsstring) \<Rightarrow> nat \<Rightarrow> nat \<Rightarrow> PhotoDraft list \<Rightarrow> WorkerMsg list" where
  "worker_messages rasterize tot i [] = [Complete]"
| "worker_messages rasterize tot i (item # rest) =
     (case rasterize item of
        Inl message \<Rightarrow> [ErrorMsg message]
      | Inr url \<Rightarrow>
          Progress (i + 1) tot
          # Result \<lparr>result_id = photo_id item, result_name = name item, outputUrl = url,
                     result_shotAt = shotAt item, result_locationText = locationText item\<rparr>
          # worker_messages rasterize tot (i + 1) rest)"

text \<open>
  The variables of the promise that \<^verbatim>\<open>processPhotos\<close> awaits: the page state the
  handlers write to, the flags of the closure, the two timers (\<open>True\<close> while pending), and
  whether the worker has been terminated.
\<close>

record coord =
  ui :: app
  settled :: bool
  gotAnyMessage :: bool
  shouldFallbackToMainThread :: bool
  startupTimeoutId :: bool
  timeoutId :: bool
  workerTerminated :: bool
  results :: "ProcessedPhoto list"

definition finish :: "coord \<Rightarrow> coord" where
  "finish c = (if settled c then c else c\<lparr>settled := True\<rparr>)"

text \<open>The callback of the timer of 1500 ms.\<close>

definition startupTimeout :: "coord \<Rightarrow> coord" where
  "startupTimeout c =
     (if gotAnyMessage c then c
      else finish (c\<lparr>shouldFallbackToMainThread := True, workerTerminated := True\<rparr>))"

text \<open>The callback of the timer of 60000 ms.\<close>

definition overallTimeout :: "Messages \<Rightarrow> coord \<Rightarrow> coord" where
  "overallTimeout msgs c = finish (c\<lparr>ui := (ui c)\<lparr>errorMsg := processFailed msgs\<rparr>\<rparr>)"

definition onerror :: "Messages \<Rightarrow> coord \<Rightarrow> coord" where
  "onerror msgs c =
     finish (c\<lparr>timeoutId := False, startupTimeoutId := False,
              ui := (ui c)\<lparr>errorMsg := processFailed msgs\<rparr>\<rparr>)"

definition onmessageerror :: "Messages \<Rightarrow> coord \<Rightarrow> coord" where
  "onmessageerror msgs c =
     finish (c\<lparr>timeoutId := False, startupTimeoutId := False,
              ui := (ui c)\<lparr>errorMsg := processFailed msgs\<rparr>\<rparr>)"

definition onmessage :: "WorkerMsg \<Rightarrow> coord \<Rightarrow> coord" where
  "onmessage payload c =
     (let c1 = c\<lparr>gotAnyMessage := True, startupTimeoutId := False\<rparr>
      in case payload of
           Progress d t \<Rightarrow> c1\<lparr>ui := (ui c1)\<lparr>progress := (d, t)\<rparr>\<rparr>
         | Result r \<Rightarrow>
             (let rs = results c1 @ [r]
              in c1\<lparr>results := rs, ui := (ui c1)\<lparr>processed := rs\<rparr>\<rparr>)
         | ErrorMsg m \<Rightarrow> c1\<lparr>ui := (ui c1)\<lparr>errorMsg := m\<rparr>, timeoutId := False\<rparr>
         | Complete \<Rightarrow> finish (c1\<lparr>timeoutId := False\<rparr>))"

text \<open>
  What the event loop runs: an event of the worker, or the expiry of one of the timers.
  A cleared timer does not fire, and a terminated worker delivers nothing.
\<close>

datatype event = Worker worker_event | StartupTimer | OverallTimer

definition step :: "Messages \<Rightarrow> event \<Rightarrow> coord \<Rightarrow> coord" where
  "step msgs ev c =
     (case ev of
        StartupTimer \<Rightarrow>
          if startupTimeoutId c then startupTimeout (c\<lparr>startupTimeoutId := False\<rparr>) else c
      | OverallTimer \<Rightarrow>
          if timeoutId c then overallTimeout msgs (c\<lparr>timeoutId := False\<rparr>) else c
      | Worker e \<Rightarrow>
          if workerTerminated c then c
          else (case e of
                  Message m \<Rightarrow> onmessage m c
                | ErrorEvent \<Rightarrow> onerror msgs c
                | MessageErrorEvent \<Rightarrow> onmessageerror msgs c))"

text \<open>
  The events of the worker come with their arrival times in milliseconds after the start,
  in order. The two expiries are put into the sequence at 1500 and at 60000.
\<close>

fun insert_timer :: "nat \<Rightarrow> event \<Rightarrow> (nat \<times> event) list \<Rightarrow> (nat \<times> event) list" where
  "insert_timer d ev [] = [(d, ev)]"
| "insert_timer d ev ((t, e) # es) =
     (if d \<le> t then (d, ev) # (t, e) # es else (t, e) # insert_timer d ev es)"

definition schedule :: "(nat \<times> worker_event) list \<Rightarrow> event list" where
  "schedule trace =
     map snd (insert_timer 60000 OverallTimer
               (insert_timer 1500 StartupTimer (map (\<lambda>(t, e). (t, Worker e)) trace)))"

text \<open>
  Awaiting the promise: the events run until one of them resolves it. The result is the
  state at that moment with the events still to come; when the events run out with
  \<open>settled\<close> still false, nothing is left that could resolve the promise.
\<close>

fun await_promise :: "Messages \<Rightarrow> event list \<Rightarrow> coord \<Rightarrow> coord \<times> event list" where
  "await_promise msgs [] c = (c, [])"
| "await_promise msgs (ev # evs) c =
     (let c1 = step msgs ev c
      in if settled c1 then (c1, evs) else await_promise msgs evs c1)"

definition start_coord :: "app \<Rightarrow> coord" where
  "start_coord s =
     \<lparr>ui = s, settled = False, gotAnyMessage = False, shouldFallbackToMainThread = False,
      startupTimeoutId = True, timeoutId = True, workerTerminated = False, results = []\<rparr>"

text \<open>
  \<^verbatim>\<open>processInMainThread\<close> with the two callbacks \<^verbatim>\<open>processPhotos\<close> passes.
  \<open>export item\<close> is the URL of the exported image, or \<open>None\<close> when decoding, the 2D context
  or the export fails, which throws out of the loop. The flag of the result tells whether
  it threw.
\<close>

fun processInMainThread ::
  "(PhotoDraft \<Rightarrow> jsstring option) \<Rightarrow> nat \<Rightarrow> nat \<Rightarrow> PhotoDraft list
     \<Rightarrow> app \<times> ProcessedPhoto list \<Rightarrow> bool \<times> app \<times> ProcessedPhoto list" where
  "processInMainThread export tot i [] (s, rs) = (False, s, rs)"
| "processInMainThread export tot i (item # rest) (s, rs) =
     (case export item of
        None \<Rightarrow> (True, s, rs)
      | Some url \<Rightarrow>
          (let rs1 = rs @ [\<lparr>result_id = photo_id item, result_name = name item, outputUrl = url,
                            result_shotAt = shotAt item, result_locationText = locationText item\<rparr>]
           in processInMainThread export tot (i + 1) rest
                (s\<lparr>processed := rs1, progress := (i + 1, tot)\<rparr>, rs1)))"

text \<open>The platform and the session a run finds.\<close>

record env =
  canUseWorker :: bool
  worker_trace :: "(nat \<times> worker_event) list"
  export :: "PhotoDraft \<Rightarrow> jsstring option"
  signedIn :: bool
  addDoc_ok :: bool

text \<open>
  The end of \<^verbatim>\<open>processPhotos\<close>: the history record when a user is signed in and there
  are results, the \<^verbatim>\<open>catch\<close> and the \<^verbatim>\<open>finally\<close>.
\<close>

definition finish_run :: "Messages \<Rightarrow> env \<Rightarrow> bool \<times> app \<times> ProcessedPhoto list \<Rightarrow> app" where
  "finish_run msgs e x =
     (case x of (thrown, s, rs) \<Rightarrow>
        (let thrown1 = (thrown \<or> (signedIn e \<and> rs \<noteq> [] \<and> \<not> addDoc_ok e));
             s1 = (if thrown1 then s\<lparr>errorMsg := processFailed msgs\<rparr> else s)
         in s1\<lparr>isProcessing := False\<rparr>))"

text \<open>
  The cleanup of the effect that depends on the pending list and on the results (lines
  416 to 422). \<^verbatim>\<open>setProcessed([])\<close> gives the results a new identity, so the
  render that follows the synchronous part of \<^verbatim>\<open>processPhotos\<close> runs this cleanup,
  in the task of the click and so before any message of the worker is handled. By then
  \<^verbatim>\<open>workerRef.current\<close> is the worker the run has just built, and the cleanup
  terminates it. The URLs that the cleanup revokes are no part of the state.
\<close>

definition effect_cleanup :: "coord \<Rightarrow> coord" where
  "effect_cleanup c = c\<lparr>workerTerminated := True\<rparr>"

text \<open>
  \<^verbatim>\<open>processPhotos\<close>. The synchronous part resets the state, builds the worker, installs
  the handlers and the timers and posts the photos; then the render runs the cleanup
  above; then the events run. Were the promise never resolved, the run would stop inside
  the \<^verbatim>\<open>await\<close> with the state the handlers left. Events that arrive after the promise
  is resolved still run their handlers.
\<close>

definition processPhotos :: "Messages \<Rightarrow> env \<Rightarrow> app \<Rightarrow> app" where
  "processPhotos msgs e s =
     (if photos s = [] \<or> isProcessing s then s
      else
        (let s1 = s\<lparr>errorMsg := [], isProcessing := True,
                     progress := (0, length (photos s)), processed := []\<rparr>
         in if canUseWorker e
            then (case await_promise msgs (schedule (worker_trace e))
                         (effect_cleanup (start_coord s1)) of
                    (c, late) \<Rightarrow>
                      if \<not> settled c then ui c
                      else
                        (let x = (if shouldFallbackToMainThread c
                                  then processInMainThread (export e) (length (photos s)) 0 (photos s)
                                         (ui c, results c)
                                  else (False, ui c, results c))
                         in ui (fold (step msgs) late
                                  (c\<lparr>ui := finish_run msgs e x, results := snd (snd x)\<rparr>))))
            else finish_run msgs e
                   (processInMainThread (export e) (length (photos s)) 0 (photos s) (s1, []))))"

text \<open>
  Two classes of events, for the statements about the promise: the events that cannot
  resolve it once neither timer is pending, and the events other than an error message of
  the worker.
\<close>

definition quiet :: "event \<Rightarrow> bool" where
  "quiet ev =
     (case ev of
        Worker (Message Complete) \<Rightarrow> False
      | Worker ErrorEvent \<Rightarrow> False
      | Worker MessageErrorEvent \<Rightarrow> False
      | _ \<Rightarrow> True)"

definition no_error_message :: "event \<Rightarrow> bool" where
  "no_error_message ev = (case ev of Worker (Message (ErrorMsg m)) \<Rightarrow> False | _ \<Rightarrow> True)"

section \<open>Sample data\<close>

definition sample_messages :: Messages where
  "sample_messages =
     \<lparr>unknownDate = js ''Unknown date'', unknownLocation = js ''Unknown'',
      processFailed = js ''Processing failed''\<rparr>"

definition sample_settings :: WorkerSettings where
  "sample_settings =
     \<lparr>fontFamily = js ''serif'', fontSize = 32, textColor = (255, 255, 255, 95 / 100),
      showLocation = True, unknownLocationText = js ''Unknown''\<rparr>"

definition sample_measure :: "jsstring \<Rightarrow> real" where
  "sample_measure t = 10 * real (length t)"

definition no_tags :: Tags where
  "no_tags =
     \<lparr>DateTimeOriginal = None, DateTimeDigitized = None, DateTime = None, GPSLatitude = None,
      GPSLongitude = None, GPSLatitudeRef = None, GPSLongitudeRef = None\<rparr>"

definition text_tag :: "jsstring \<Rightarrow> tag option" where
  "text_tag s = Some \<lparr>tag_value = VStr s, description = VStr s\<rparr>"

definition number_tag :: "real \<Rightarrow> tag option" where
  "number_tag x = Some \<lparr>tag_value = VNum (Fin x), description = VNum (Fin x)\<rparr>"

definition sample_file :: File where
  "sample_file = \<lparr>file_name = js ''a.jpg'', lastModified = 1000, exif = None\<rparr>"

definition sample_url :: "File \<Rightarrow> jsstring" where
  "sample_url f = js ''blob:'' @ file_name f"

text \<open>A draft of the sample file with the given location text.\<close>

definition sample_draft :: "jsstring \<Rightarrow> PhotoDraft" where
  "sample_draft loc =
     \<lparr>photo_id = js ''a.jpg-0-1000'', file' = sample_file, name = js ''a.jpg'',
      shotAt = js ''2023-05-01 10:20:30'', locationText = loc, sourceUrl = js ''blob:a.jpg'',
      dateLabel = [], locationLabel = [], gps = None, isGeocoding = False\<rparr>"

definition empty_app :: app where
  "empty_app =
     \<lparr>photos = [], processed = [], progress = (0, 0), isProcessing = False, errorMsg = [],
      geocodeCache = Map.empty, requests = []\<rparr>"

text \<open>Files whose tags carry the coordinate 37.5 N, 127 E.\<close>

definition gps_tags :: Tags where
  "gps_tags =
     no_tags\<lparr>GPSLatitude := number_tag (75 / 2), GPSLongitude := number_tag 127,
             GPSLatitudeRef := text_tag (js ''N''), GPSLongitudeRef := text_tag (js ''E'')\<rparr>"

definition gps_file :: "jsstring \<Rightarrow> File" where
  "gps_file n = \<lparr>file_name = n, lastModified = 1000, exif = Some gps_tags\<rparr>"

definition sample_coord :: GpsCoord where
  "sample_coord = \<lparr>lat = 75 / 2, lon = 127\<rparr>"

text \<open>A pending list of one draft, with its coordinate as location text, and an empty cache.\<close>

definition sample_app :: app where
  "sample_app = empty_app\<lparr>photos := [sample_draft (js ''37.500000, 127.000000'')]\<rparr>"

definition seoul_response :: fetch_outcome where
  "seoul_response = Response True (Some (JObject [(js ''display_name'', JString (js ''Seoul''))]))"

text \<open>A rasterization that fails for every photo, as for files that cannot be decoded.\<close>

definition failing_rasterize :: "PhotoDraft \<Rightarrow> jsstring + jsstring" where
  "failing_rasterize item = Inl (js ''decode failed'')"

text \<open>A platform without workers, on which every export succeeds, and nobody signed in.\<close>

definition sample_env :: env where
  "sample_env =
     \<lparr>canUseWorker = False, worker_trace = [], export = (\<lambda>item. Some (js ''blob:out'')),
      signedIn = False, addDoc_ok = True\<rparr>"


text \<open>The parts of the state that belong to the pending drafts and to the geocoding.\<close>

definition kept :: "app \<Rightarrow> PhotoDraft list \<times> (jsstring \<rightharpoonup> jsstring) \<times> GpsCoord list" where
  "kept s = (photos s, geocodeCache s, requests s)"

section \<open>Verified properties\<close>

subsection \<open>Layout and overlay lines\<close>

lemma foldl_max_cong:
  "(\<forall>t\<in>set ls. m t = m' t) \<Longrightarrow>
   foldl (\<lambda>a text. max a (m text)) (a0::real) ls = foldl (\<lambda>a text. max a (m' text)) a0 ls"
  by (induction ls arbitrary: a0) simp_all

lemma Math_round_of_int: "Math_round (real_of_int n) = n"
  by (simp add: Math_round_def)

lemma processOne_panel:
  "processOne m w h st item =
     panel m w h st
       (filter (\<lambda>l. l \<noteq> [])
          [shotAt item,
           if showLocation st
              \<and> \<not> (locationText item = unknownLocationText st
                   \<or> rx_test numeric_pair_rx (trim (locationText item)))
           then locationText item else []])"
  unfolding processOne_def panel_def Let_def by (rule refl)

lemma processInMainThread_item_panel:
  "processInMainThread_item m w h st item =
     panel m w h st
       (if showLocation st \<and> \<not> isUnknownLocationText (locationText item) (unknownLocationText st)
        then filter (\<lambda>l. l \<noteq> []) [shotAt item] @ [locationText item]
        else filter (\<lambda>l. l \<noteq> []) [shotAt item])"
  unfolding processInMainThread_item_def panel_def Let_def by (rule refl)

lemma panel_fields:
  "lines (panel m w h st ls) = ls"
  "fontSizePx (panel m w h st ls) = max 10 (Math_round (fontSize st))"
  "lineHeight (panel m w h st ls) = Math_round (real_of_int (max 10 (Math_round (fontSize st))) * (14 / 10))"
  "padX (panel m w h st ls) = Math_round (real_of_int (max 10 (Math_round (fontSize st))) * (7 / 10))"
  "padY (panel m w h st ls) = Math_round (real_of_int (max 10 (Math_round (fontSize st))) * (5 / 10))"
  "margin (panel m w h st ls) = max 16 (Math_round (real_of_int w * (1 / 100)))"
  "boxWidth (panel m w h st ls) =
     Math_round (foldl (\<lambda>a text. max a (m text)) 0 ls + real_of_int (padX (panel m w h st ls) * 2))"
  "boxHeight (panel m w h st ls) =
     int (length ls) * lineHeight (panel m w h st ls) + padY (panel m w h st ls) * 2"
  "boxX (panel m w h st ls) = max 0 (w - boxWidth (panel m w h st ls) - margin (panel m w h st ls))"
  "boxY (panel m w h st ls) = max 0 (h - boxHeight (panel m w h st ls) - margin (panel m w h st ls))"
  unfolding panel_def Let_def by (simp_all only: overlay.simps Math_round_of_int)

lemma panel_cong:
  assumes "\<forall>t\<in>set ls. m t = m' t"
  shows "panel m w h st ls = panel m' w h st ls"
proof -
  have "foldl (\<lambda>a text. max a (m text)) 0 ls = foldl (\<lambda>a text. max a (m' text)) 0 ls"
    using assms by (rule foldl_max_cong)
  then show ?thesis unfolding panel_def Let_def by (simp only:)
qed

lemma lines_processOne:
  "lines (processOne m w h st item) =
     filter (\<lambda>l. l \<noteq> []) [shotAt item] @
       (if showLocation st \<and> locationText item \<noteq> [] \<and> locationText item \<noteq> unknownLocationText st
           \<and> \<not> rx_test numeric_pair_rx (trim (locationText item)) then [locationText item] else [])"
  by (simp add: processOne_panel panel_fields(1))

lemma lines_processInMainThread_item:
  "lines (processInMainThread_item m w h st item) =
     filter (\<lambda>l. l \<noteq> []) [shotAt item] @
       (if showLocation st \<and> trim (locationText item) \<noteq> []
           \<and> trim (locationText item) \<noteq> unknownLocationText st
           \<and> \<not> rx_test numeric_pair_rx (trim (locationText item)) then [locationText item] else [])"
  by (simp add: processInMainThread_item_panel panel_fields(1) isUnknownLocationText_def)

lemma trim_nonempty: "trim s \<noteq> [] \<Longrightarrow> s \<noteq> []"
  by (auto simp: trim_def)

lemma paths_agree:
  assumes "\<not> showLocation st \<or> (trim (locationText item) \<noteq> []
      \<and> ((locationText item = unknownLocationText st) = (trim (locationText item) = unknownLocationText st)))"
  shows "processOne m w h st item = processInMainThread_item m w h st item"
proof -
  have "filter (\<lambda>l. l \<noteq> [])
          [shotAt item,
           if showLocation st
              \<and> \<not> (locationText item = unknownLocationText st
                   \<or> rx_test numeric_pair_rx (trim (locationText item)))
           then locationText item else []]
      = (if showLocation st \<and> \<not> isUnknownLocationText (locationText item) (unknownLocationText st)
        then filter (\<lambda>l. l \<noteq> []) [shotAt item] @ [locationText item]
        else filter (\<lambda>l. l \<noteq> []) [shotAt item])"
    using assms trim_nonempty[of "locationText item"]
    by (auto simp add: isUnknownLocationText_def)
  then show ?thesis by (simp only: processOne_panel processInMainThread_item_panel)
qed

lemma sample_strings:
  "trim (js ''   '') = []"
  "trim (js ''Seoul'') = js ''Seoul''"
  "\<not> rx_test numeric_pair_rx (js ''Seoul'')"
  "\<not> accepts_empty numeric_pair_rx"
  "\<not> rx_test numeric_pair_rx (js ''   '')"
  "js ''   '' \<noteq> []" "js ''   '' \<noteq> js ''Unknown''"
  "js ''Seoul'' \<noteq> []" "js ''Seoul'' \<noteq> js ''Unknown''"
  "js ''2023-05-01 10:20:30'' \<noteq> []"
  "length (js ''2023-05-01 10:20:30'') = 19" "length (js ''   '') = 3" "length (js ''Seoul'') = 5"
  by (simp_all add: js_def trim_def is_ws_def numeric_pair_rx_def decimal_rx_def lit_def opt_def
      some_def is_digit_def)

lemma sample_fields:
  "showLocation sample_settings" "unknownLocationText sample_settings = js ''Unknown''"
  "fontSize sample_settings = 32"
  "shotAt (sample_draft loc) = js ''2023-05-01 10:20:30''" "locationText (sample_draft loc) = loc"
  by (simp_all add: sample_settings_def sample_draft_def)

lemma sample_lines:
  "lines (processOne m w h sample_settings (sample_draft (js ''   '')))
     = [js ''2023-05-01 10:20:30'', js ''   '']"
  "lines (processInMainThread_item m w h sample_settings (sample_draft (js ''   '')))
     = [js ''2023-05-01 10:20:30'']"
  "lines (processOne m w h sample_settings (sample_draft (js ''Seoul'')))
     = [js ''2023-05-01 10:20:30'', js ''Seoul'']"
  "lines (processInMainThread_item m w h sample_settings (sample_draft (js ''Seoul'')))
     = [js ''2023-05-01 10:20:30'', js ''Seoul'']"
  by (simp_all add: lines_processOne lines_processInMainThread_item sample_fields sample_strings)

lemma sample_box:
  assumes "fontSize st = 32"
  shows "lineHeight (panel m w h st ls) = 45" "padX (panel m w h st ls) = 22"
    "padY (panel m w h st ls) = 16" "margin (panel m 4000 h st ls) = 40"
    "margin (panel m 100 h st ls) = 16"
  using assms by (simp_all add: panel_fields Math_round_def)

text \<open>
  C1 (the worker routine and the fallback routine compute the same lines and geometry).
  The two routines do not agree. The fallback routine classifies the location text with
  \<open>isUnknownLocationText\<close>, which trims the text first and treats a blank text as unknown;
  the worker routine compares the untrimmed text with the sentinel and has no test for a
  blank text. For a location text of three spaces, such as the geocoding service may
  return as display name, the worker draws two lines in a panel of height 122 and the
  fallback draws one line in a panel of height 77, at a different position.
\<close>

theorem worker_and_fallback_differ_on_blank_location:
  "lines (processOne sample_measure 4000 3000 sample_settings (sample_draft (js ''   '')))
     = [js ''2023-05-01 10:20:30'', js ''   '']
   \<and> lines (processInMainThread_item sample_measure 4000 3000 sample_settings (sample_draft (js ''   '')))
     = [js ''2023-05-01 10:20:30'']
   \<and> boxHeight (processOne sample_measure 4000 3000 sample_settings (sample_draft (js ''   ''))) = 122
   \<and> boxHeight (processInMainThread_item sample_measure 4000 3000 sample_settings (sample_draft (js ''   ''))) = 77
   \<and> boxY (processOne sample_measure 4000 3000 sample_settings (sample_draft (js ''   ''))) = 2838
   \<and> boxY (processInMainThread_item sample_measure 4000 3000 sample_settings (sample_draft (js ''   ''))) = 2883"
proof -
  note fs = sample_fields(3)
  let ?w = "processOne sample_measure 4000 3000 sample_settings (sample_draft (js ''   ''))"
  let ?f = "processInMainThread_item sample_measure 4000 3000 sample_settings (sample_draft (js ''   ''))"
  have hw: "boxHeight ?w = 122"
    using sample_lines(1) [of sample_measure 4000 3000]
    by (simp add: processOne_panel panel_fields(1,8) sample_box [OF fs])
  have hf: "boxHeight ?f = 77"
    using sample_lines(2) [of sample_measure 4000 3000]
    by (simp add: processInMainThread_item_panel panel_fields(1,8) sample_box [OF fs])
  have yw: "boxY ?w = 2838"
    using hw by (simp add: processOne_panel panel_fields(10) sample_box [OF fs])
  have yf: "boxY ?f = 2883"
    using hf by (simp add: processInMainThread_item_panel panel_fields(10) sample_box [OF fs])
  from hw hf yw yf show ?thesis by (simp add: sample_lines)
qed

text \<open>
  The two routines agree whenever the location line is switched off, and whenever
  trimming neither empties the location text nor changes whether it is the sentinel.
\<close>

lemma worker_and_fallback_agree_example:
  "processOne sample_measure 4000 3000 sample_settings (sample_draft (js ''Seoul''))
     = processInMainThread_item sample_measure 4000 3000 sample_settings (sample_draft (js ''Seoul''))"
  by (rule paths_agree) (simp add: sample_fields sample_strings)

text \<open>
  C4, as stated (the location line is drawn if and only if the location line is switched
  on, the text is not empty, is not the sentinel and does not match the pattern of a
  numeric pair): false at a location text of three spaces. The text is not empty, is not
  the sentinel and does not match the pattern, and the fallback routine does not draw it.
  Reading the three tests as tests of the trimmed text does not save the statement for
  every output: the trimmed text is empty, and the worker routine draws the text.
\<close>

theorem location_line_blank_counterexample:
  "\<not> (locationText (sample_draft (js ''   ''))
          \<in> set (lines (processInMainThread_item sample_measure 4000 3000 sample_settings
                         (sample_draft (js ''   ''))))
      \<longleftrightarrow> showLocation sample_settings
           \<and> locationText (sample_draft (js ''   '')) \<noteq> []
           \<and> locationText (sample_draft (js ''   '')) \<noteq> unknownLocationText sample_settings
           \<and> \<not> rx_test numeric_pair_rx (locationText (sample_draft (js ''   ''))))
   \<and> \<not> (locationText (sample_draft (js ''   ''))
          \<in> set (lines (processOne sample_measure 4000 3000 sample_settings
                         (sample_draft (js ''   ''))))
      \<longleftrightarrow> showLocation sample_settings
           \<and> trim (locationText (sample_draft (js ''   ''))) \<noteq> []
           \<and> trim (locationText (sample_draft (js ''   ''))) \<noteq> unknownLocationText sample_settings
           \<and> \<not> rx_test numeric_pair_rx (trim (locationText (sample_draft (js ''   '')))))"
proof -
  have "js ''2023-05-01 10:20:30'' \<noteq> js ''   ''"
    by (simp add: js_def)
  then show ?thesis
    by (simp add: sample_lines sample_fields sample_strings)
qed

text \<open>
  C4, amended: in the fallback routine the lines are the time stamp (when it is not empty)
  followed by the location text exactly when the location line is switched on and the
  trimmed location text is not empty, is not the sentinel and does not match the pattern
  of a numeric pair. With the location line switched off, both routines draw the time
  stamp alone, and for a time stamp that is not empty the height of the box is that of one
  line plus the vertical padding twice.
\<close>

theorem location_line_shown_iff:
  "lines (processInMainThread_item m w h st item) =
     filter (\<lambda>l. l \<noteq> []) [shotAt item] @
       (if showLocation st \<and> trim (locationText item) \<noteq> []
           \<and> trim (locationText item) \<noteq> unknownLocationText st
           \<and> \<not> rx_test numeric_pair_rx (trim (locationText item)) then [locationText item] else [])
   \<and> (\<not> showLocation st \<longrightarrow>
        lines (processInMainThread_item m w h st item) = filter (\<lambda>l. l \<noteq> []) [shotAt item]
      \<and> lines (processOne m w h st item) = filter (\<lambda>l. l \<noteq> []) [shotAt item]
      \<and> (shotAt item \<noteq> [] \<longrightarrow>
            boxHeight (processInMainThread_item m w h st item)
              = lineHeight (processInMainThread_item m w h st item)
                + 2 * padY (processInMainThread_item m w h st item)
          \<and> boxHeight (processOne m w h st item)
              = lineHeight (processOne m w h st item) + 2 * padY (processOne m w h st item)))"
proof (intro conjI impI)
  show "lines (processInMainThread_item m w h st item) =
     filter (\<lambda>l. l \<noteq> []) [shotAt item] @
       (if showLocation st \<and> trim (locationText item) \<noteq> []
           \<and> trim (locationText item) \<noteq> unknownLocationText st
           \<and> \<not> rx_test numeric_pair_rx (trim (locationText item)) then [locationText item] else [])"
    by (rule lines_processInMainThread_item)
next
  assume "\<not> showLocation st"
  then show "lines (processInMainThread_item m w h st item) = filter (\<lambda>l. l \<noteq> []) [shotAt item]"
    by (simp add: lines_processInMainThread_item)
next
  assume "\<not> showLocation st"
  then show "lines (processOne m w h st item) = filter (\<lambda>l. l \<noteq> []) [shotAt item]"
    by (simp add: lines_processOne)
next
  assume "\<not> showLocation st" "shotAt item \<noteq> []"
  then show "boxHeight (processInMainThread_item m w h st item)
              = lineHeight (processInMainThread_item m w h st item)
                + 2 * padY (processInMainThread_item m w h st item)"
    by (simp add: processInMainThread_item_panel panel_fields(1,8))
next
  assume "\<not> showLocation st" "shotAt item \<noteq> []"
  then show "boxHeight (processOne m w h st item)
              = lineHeight (processOne m w h st item) + 2 * padY (processOne m w h st item)"
    by (simp add: processOne_panel panel_fields(1,8))
qed

theorem location_line_shown_iff_witness:
  "lines (processInMainThread_item sample_measure 4000 3000 sample_settings (sample_draft (js ''Seoul'')))
     = [js ''2023-05-01 10:20:30'', js ''Seoul'']
   \<and> \<not> showLocation (sample_settings\<lparr>showLocation := False\<rparr>)
   \<and> shotAt (sample_draft (js ''Seoul'')) \<noteq> []
   \<and> lines (processInMainThread_item sample_measure 4000 3000 (sample_settings\<lparr>showLocation := False\<rparr>)
        (sample_draft (js ''Seoul''))) = [js ''2023-05-01 10:20:30'']
   \<and> lines (processOne sample_measure 4000 3000 (sample_settings\<lparr>showLocation := False\<rparr>)
        (sample_draft (js ''Seoul''))) = [js ''2023-05-01 10:20:30'']
   \<and> boxHeight (processInMainThread_item sample_measure 4000 3000 (sample_settings\<lparr>showLocation := False\<rparr>)
        (sample_draft (js ''Seoul''))) = 77
   \<and> boxHeight (processOne sample_measure 4000 3000 (sample_settings\<lparr>showLocation := False\<rparr>)
        (sample_draft (js ''Seoul''))) = 77"
proof -
  have fs: "fontSize (sample_settings\<lparr>showLocation := False\<rparr>) = 32"
    by (simp add: sample_fields)
  show ?thesis
    using location_line_shown_iff [of sample_measure 4000 3000 sample_settings "sample_draft (js ''Seoul'')"]
      location_line_shown_iff [of sample_measure 4000 3000 "sample_settings\<lparr>showLocation := False\<rparr>"
        "sample_draft (js ''Seoul'')"]
    by (simp add: sample_fields sample_strings processOne_panel processInMainThread_item_panel
        sample_box [OF fs])
qed

text \<open>
  C7 (the layout is a function of its inputs, and the box is never placed at a negative
  coordinate): in both routines the position of the box is at least 0 in both directions,
  and it is 0 in a direction in which the box is at least as large as the canvas; the
  result depends on the measuring function only through the widths of the lines drawn, so
  that equal lines, widths, dimensions and settings give equal geometry.
\<close>

theorem box_position_never_negative:
  "0 \<le> boxX (processOne m w h st item) \<and> 0 \<le> boxY (processOne m w h st item)
   \<and> 0 \<le> boxX (processInMainThread_item m w h st item)
   \<and> 0 \<le> boxY (processInMainThread_item m w h st item)
   \<and> (w \<le> boxWidth (processOne m w h st item) \<longrightarrow> boxX (processOne m w h st item) = 0)
   \<and> (h \<le> boxHeight (processOne m w h st item) \<longrightarrow> boxY (processOne m w h st item) = 0)
   \<and> (w \<le> boxWidth (processInMainThread_item m w h st item)
        \<longrightarrow> boxX (processInMainThread_item m w h st item) = 0)
   \<and> (h \<le> boxHeight (processInMainThread_item m w h st item)
        \<longrightarrow> boxY (processInMainThread_item m w h st item) = 0)
   \<and> ((\<forall>t\<in>set (lines (processOne m w h st item)). m t = m' t) \<longrightarrow>
          processOne m w h st item = processOne m' w h st item)
   \<and> ((\<forall>t\<in>set (lines (processInMainThread_item m w h st item)). m t = m' t) \<longrightarrow>
          processInMainThread_item m w h st item = processInMainThread_item m' w h st item)"
proof -
  have nonneg: "0 \<le> boxX (panel m w h st ls) \<and> 0 \<le> boxY (panel m w h st ls)" for ls
    by (simp add: panel_fields(9,10))
  have mg: "0 < margin (panel m w h st ls)" for ls
    by (simp add: panel_fields(6))
  have zx: "boxX (panel m w h st ls) = 0" if "w \<le> boxWidth (panel m w h st ls)" for ls
    using that mg [of ls] by (simp add: panel_fields(9))
  have zy: "boxY (panel m w h st ls) = 0" if "h \<le> boxHeight (panel m w h st ls)" for ls
    using that mg [of ls] by (simp add: panel_fields(10))
  have cw: "processOne m w h st item = processOne m' w h st item"
    if "\<forall>t\<in>set (lines (processOne m w h st item)). m t = m' t"
    using that unfolding processOne_panel panel_fields(1) by (rule panel_cong)
  have cf: "processInMainThread_item m w h st item = processInMainThread_item m' w h st item"
    if "\<forall>t\<in>set (lines (processInMainThread_item m w h st item)). m t = m' t"
    using that unfolding processInMainThread_item_panel panel_fields(1) by (rule panel_cong)
  show ?thesis
    using cw cf by (simp add: processOne_panel processInMainThread_item_panel nonneg zx zy)
qed

theorem box_position_never_negative_witness:
  "100 \<le> boxWidth (processOne sample_measure 100 50 sample_settings (sample_draft (js ''Seoul'')))
   \<and> boxX (processOne sample_measure 100 50 sample_settings (sample_draft (js ''Seoul''))) = 0
   \<and> 50 \<le> boxHeight (processOne sample_measure 100 50 sample_settings (sample_draft (js ''Seoul'')))
   \<and> boxY (processOne sample_measure 100 50 sample_settings (sample_draft (js ''Seoul''))) = 0
   \<and> 100 \<le> boxWidth (processInMainThread_item sample_measure 100 50 sample_settings (sample_draft (js ''Seoul'')))
   \<and> boxX (processInMainThread_item sample_measure 100 50 sample_settings (sample_draft (js ''Seoul''))) = 0
   \<and> 50 \<le> boxHeight (processInMainThread_item sample_measure 100 50 sample_settings (sample_draft (js ''Seoul'')))
   \<and> boxY (processInMainThread_item sample_measure 100 50 sample_settings (sample_draft (js ''Seoul''))) = 0
   \<and> list_all (\<lambda>t. sample_measure t = 10 * real (length t))
         (lines (processOne sample_measure 100 50 sample_settings (sample_draft (js ''Seoul''))))
   \<and> processOne sample_measure 100 50 sample_settings (sample_draft (js ''Seoul''))
       = processOne (\<lambda>t. 10 * real (length t)) 100 50 sample_settings (sample_draft (js ''Seoul''))
   \<and> list_all (\<lambda>t. sample_measure t = 10 * real (length t))
         (lines (processInMainThread_item sample_measure 100 50 sample_settings (sample_draft (js ''Seoul''))))
   \<and> processInMainThread_item sample_measure 100 50 sample_settings (sample_draft (js ''Seoul''))
       = processInMainThread_item (\<lambda>t. 10 * real (length t)) 100 50 sample_settings (sample_draft (js ''Seoul''))"
proof -
  note fs = sample_fields(3)
  let ?w = "processOne sample_measure 100 50 sample_settings (sample_draft (js ''Seoul''))"
  let ?f = "processInMainThread_item sample_measure 100 50 sample_settings (sample_draft (js ''Seoul''))"
  have bw: "boxWidth ?w = 234"
    using sample_lines(3) [of sample_measure 100 50]
    by (simp add: processOne_panel panel_fields(1,7) sample_box [OF fs] sample_measure_def
        sample_strings Math_round_def)
  have bf: "boxWidth ?f = 234"
    using sample_lines(4) [of sample_measure 100 50]
    by (simp add: processInMainThread_item_panel panel_fields(1,7) sample_box [OF fs] sample_measure_def
        sample_strings Math_round_def)
  have hw: "boxHeight ?w = 122"
    using sample_lines(3) [of sample_measure 100 50]
    by (simp add: processOne_panel panel_fields(1,8) sample_box [OF fs])
  have hf: "boxHeight ?f = 122"
    using sample_lines(4) [of sample_measure 100 50]
    by (simp add: processInMainThread_item_panel panel_fields(1,8) sample_box [OF fs])
  note T = box_position_never_negative [of sample_measure 100 50 sample_settings
      "sample_draft (js ''Seoul'')" "\<lambda>t. 10 * real (length t)"]
  have c1: "100 \<le> boxWidth ?w" "50 \<le> boxHeight ?w" "100 \<le> boxWidth ?f" "50 \<le> boxHeight ?f"
    using bw bf hw hf by simp_all
  have c2: "boxX ?w = 0" "boxY ?w = 0" "boxX ?f = 0" "boxY ?f = 0"
    using T c1 by blast+
  have c3: "\<forall>t\<in>set (lines ?w). sample_measure t = 10 * real (length t)"
    "\<forall>t\<in>set (lines ?f). sample_measure t = 10 * real (length t)"
    by (simp_all add: sample_measure_def)
  have c4: "?w = processOne (\<lambda>t. 10 * real (length t)) 100 50 sample_settings (sample_draft (js ''Seoul''))"
    "?f = processInMainThread_item (\<lambda>t. 10 * real (length t)) 100 50 sample_settings
            (sample_draft (js ''Seoul''))"
    using T c3 by blast+
  show ?thesis
    using c1 c2 c3 c4 by (simp only: list_all_iff)
qed

subsection \<open>Metadata\<close>

lemma replace_date_shape:
  assumes "length y = 4" "list_all is_digit y" "length mo = 2" "list_all is_digit mo"
    "length d = 2" "list_all is_digit d"
  shows "replace_date (y @ [58] @ mo @ [58] @ d @ rest) = y @ [45] @ mo @ [45] @ d @ rest"
  using assms by (simp add: replace_date_def date_prefix_def nth_append)

lemma replace_date_short: "length t < 10 \<Longrightarrow> replace_date t = t"
  by (simp add: replace_date_def date_prefix_def)

lemma replace_date_Cons:
  "replace_date (c0 # c1 # c2 # c3 # c4 # c5 # c6 # c7 # c8 # c9 # r) =
     (if is_digit c0 \<and> is_digit c1 \<and> is_digit c2 \<and> is_digit c3 \<and> c4 = 58
         \<and> is_digit c5 \<and> is_digit c6 \<and> c7 = 58 \<and> is_digit c8 \<and> is_digit c9
      then c0 # c1 # c2 # c3 # 45 # c5 # c6 # 45 # c8 # c9 # r
      else c0 # c1 # c2 # c3 # c4 # c5 # c6 # c7 # c8 # c9 # r)"
  by (simp add: replace_date_def date_prefix_def)

lemma ten_or_more:
  assumes "\<not> length t < 10"
  obtains c0 c1 c2 c3 c4 c5 c6 c7 c8 c9 r
  where "t = c0 # c1 # c2 # c3 # c4 # c5 # c6 # c7 # c8 # c9 # (r::nat list)"
proof -
  from assms have "10 \<le> length t" by simp
  then have "\<exists>c0 c1 c2 c3 c4 c5 c6 c7 c8 c9 r.
      t = c0 # c1 # c2 # c3 # c4 # c5 # c6 # c7 # c8 # c9 # r"
    by (simp add: eval_nat_numeral Suc_le_length_iff) blast
  then show ?thesis using that by blast
qed

lemma length_replace_date: "length (replace_date t) = length t"
proof (cases "length t < 10")
  case True
  then show ?thesis by (simp add: replace_date_short)
next
  case False
  then obtain c0 c1 c2 c3 c4 c5 c6 c7 c8 c9 r
    where "t = c0 # c1 # c2 # c3 # c4 # c5 # c6 # c7 # c8 # c9 # r" by (rule ten_or_more)
  then show ?thesis by (simp add: replace_date_Cons)
qed

lemma drop_replace_date: "drop 10 (replace_date t) = drop 10 t"
proof (cases "length t < 10")
  case True
  then show ?thesis by (simp add: replace_date_short)
next
  case False
  then obtain c0 c1 c2 c3 c4 c5 c6 c7 c8 c9 r
    where "t = c0 # c1 # c2 # c3 # c4 # c5 # c6 # c7 # c8 # c9 # r" by (rule ten_or_more)
  then show ?thesis by (simp add: replace_date_Cons)
qed

lemma nth_replace_date:
  assumes "i \<noteq> 4" "i \<noteq> 7"
  shows "replace_date t ! i = t ! i"
proof (cases "length t < 10")
  case True
  then show ?thesis by (simp add: replace_date_short)
next
  case False
  then obtain c0 c1 c2 c3 c4 c5 c6 c7 c8 c9 r
    where t: "t = c0 # c1 # c2 # c3 # c4 # c5 # c6 # c7 # c8 # c9 # r" by (rule ten_or_more)
  have "i < 4 \<or> i = 5 \<or> i = 6 \<or> i = 8 \<or> i = 9 \<or> 10 \<le> i" using assms by arith
  then show ?thesis
  proof (elim disjE)
    assume "i < 4"
    then have "i = 0 \<or> i = 1 \<or> i = 2 \<or> i = 3" by arith
    then show ?thesis by (auto simp add: t replace_date_Cons)
  next
    assume "10 \<le> i"
    then obtain k where "i = 10 + k" using le_Suc_ex by blast
    then show ?thesis by (simp add: t replace_date_Cons)
  qed (simp_all add: t replace_date_Cons eval_nat_numeral)
qed

lemma replace_date_no_shape:
  assumes "\<forall>y mo d rest. length y = 4 \<and> list_all is_digit y \<and> length mo = 2 \<and> list_all is_digit mo
             \<and> length d = 2 \<and> list_all is_digit d
           \<longrightarrow> t \<noteq> y @ [58] @ mo @ [58] @ d @ rest"
  shows "replace_date t = t"
proof (cases "length t < 10")
  case True
  then show ?thesis by (simp add: replace_date_short)
next
  case False
  then obtain c0 c1 c2 c3 c4 c5 c6 c7 c8 c9 r
    where t: "t = c0 # c1 # c2 # c3 # c4 # c5 # c6 # c7 # c8 # c9 # r" by (rule ten_or_more)
  show ?thesis
  proof (cases "is_digit c0 \<and> is_digit c1 \<and> is_digit c2 \<and> is_digit c3 \<and> c4 = 58
         \<and> is_digit c5 \<and> is_digit c6 \<and> c7 = 58 \<and> is_digit c8 \<and> is_digit c9")
    case True
    then have "t = [c0, c1, c2, c3] @ [58] @ [c5, c6] @ [58] @ [c8, c9] @ r"
      by (simp add: t)
    moreover have "length [c0, c1, c2, c3] = 4 \<and> list_all is_digit [c0, c1, c2, c3]
        \<and> length [c5, c6] = 2 \<and> list_all is_digit [c5, c6]
        \<and> length [c8, c9] = 2 \<and> list_all is_digit [c8, c9]"
      using True by simp
    ultimately show ?thesis using assms by blast
  next
    case False
    then show ?thesis unfolding t replace_date_Cons by simp
  qed
qed

lemma shotAt_of_tags_chain:
  "shotAt_of_tags tags unk =
     formatExifDate
       (if opt_description (DateTimeOriginal tags) \<noteq> VUndefined
            \<and> opt_description (DateTimeOriginal tags) \<noteq> VNull
        then opt_description (DateTimeOriginal tags)
        else if opt_description (DateTimeDigitized tags) \<noteq> VUndefined
            \<and> opt_description (DateTimeDigitized tags) \<noteq> VNull
        then opt_description (DateTimeDigitized tags)
        else opt_description (DateTime tags)) unk"
  by (simp add: shotAt_of_tags_def nullish_def)

lemma sample_dates:
  "trim (js ''   '') = []"
  "trim (js ''2023:05:01 10:20:30'') = js ''2023:05:01 10:20:30''"
  "replace_date (js ''2023:05:01 10:20:30'') = js ''2023-05-01 10:20:30''"
  "js ''2023:05:01 10:20:30'' \<noteq> []"
  "js ''Unknown date'' \<noteq> js ''2023-05-01 10:20:30''"
  "replace_date (js ''yesterday'') = js ''yesterday''"
  "trim (js ''yesterday'') = js ''yesterday''"
  "js ''yesterday'' \<noteq> []"
  by (simp_all add: js_def trim_def is_ws_def replace_date_def date_prefix_def is_digit_def)

text \<open>
  C2, as stated (an empty or blank value counts as absent and falls through to the next
  tag): false. With a blank description of the original capture time and a well-formed
  description of the digitized time, the displayed time stamp is the sentinel, not the
  normalization of the digitized time.
\<close>

theorem blank_original_hides_digitized_counterexample:
  "shotAt_of_tags
     (no_tags\<lparr>DateTimeOriginal := text_tag (js ''   ''),
              DateTimeDigitized := text_tag (js ''2023:05:01 10:20:30'')\<rparr>)
     (js ''Unknown date'') = js ''Unknown date''
   \<and> formatExifDate (VStr (js ''2023:05:01 10:20:30'')) (js ''Unknown date'') = js ''2023-05-01 10:20:30''
   \<and> js ''Unknown date'' \<noteq> js ''2023-05-01 10:20:30''"
  by (simp add: shotAt_of_tags_chain formatExifDate_def no_tags_def text_tag_def opt_description_def
      sample_dates)

text \<open>
  C2, amended: the displayed time stamp is \<open>formatExifDate\<close> of the first description, in
  the order original capture time, digitized time, modification time, that is neither
  undefined nor null (of the last one when there is none). A value that is not a string
  gives the sentinel, and so does a string that is empty or blank: it does not fall
  through to the next tag. Any other string is trimmed, and a leading \<^verbatim>\<open>dddd:dd:dd\<close>
  has its two colons replaced by hyphens, while a string that does not begin that way is
  left as it is; the length, every character at an index other than 4 and 7, and so
  everything from index 10 on, is as in the trimmed value.
\<close>

theorem timestamp_from_first_present_tag:
  "shotAt_of_tags tags unk =
     formatExifDate
       (if opt_description (DateTimeOriginal tags) \<noteq> VUndefined
            \<and> opt_description (DateTimeOriginal tags) \<noteq> VNull
        then opt_description (DateTimeOriginal tags)
        else if opt_description (DateTimeDigitized tags) \<noteq> VUndefined
            \<and> opt_description (DateTimeDigitized tags) \<noteq> VNull
        then opt_description (DateTimeDigitized tags)
        else opt_description (DateTime tags)) unk
   \<and> formatExifDate VUndefined unk = unk \<and> formatExifDate VNull unk = unk
   \<and> ((\<forall>x. raw \<noteq> VStr x) \<longrightarrow> formatExifDate raw unk = unk)
   \<and> formatExifDate (VStr s) unk = (if trim s = [] then unk else replace_date (trim s))
   \<and> (length y = 4 \<and> list_all is_digit y \<and> length mo = 2 \<and> list_all is_digit mo
        \<and> length d = 2 \<and> list_all is_digit d
      \<longrightarrow> replace_date (y @ [58] @ mo @ [58] @ d @ rest) = y @ [45] @ mo @ [45] @ d @ rest)
   \<and> (\<not> date_prefix t \<longrightarrow> replace_date t = t)
   \<and> ((\<forall>y mo d rest. length y = 4 \<and> list_all is_digit y \<and> length mo = 2 \<and> list_all is_digit mo
             \<and> length d = 2 \<and> list_all is_digit d
           \<longrightarrow> t \<noteq> y @ [58] @ mo @ [58] @ d @ rest)
      \<longrightarrow> replace_date t = t)
   \<and> length (replace_date t) = length t
   \<and> drop 10 (replace_date t) = drop 10 t
   \<and> (\<forall>i. i \<noteq> 4 \<and> i \<noteq> 7 \<longrightarrow> replace_date t ! i = t ! i)"
proof -
  have n: "(\<forall>x. raw \<noteq> VStr x) \<longrightarrow> formatExifDate raw unk = unk"
    by (cases raw) (simp_all add: formatExifDate_def)
  have f: "formatExifDate VUndefined unk = unk \<and> formatExifDate VNull unk = unk"
    "formatExifDate (VStr s) unk = (if trim s = [] then unk else replace_date (trim s))"
    by (simp_all add: formatExifDate_def)
  have p: "\<not> date_prefix t \<longrightarrow> replace_date t = t"
    by (simp add: replace_date_def)
  have q: "length y = 4 \<and> list_all is_digit y \<and> length mo = 2 \<and> list_all is_digit mo
        \<and> length d = 2 \<and> list_all is_digit d
      \<longrightarrow> replace_date (y @ [58] @ mo @ [58] @ d @ rest) = y @ [45] @ mo @ [45] @ d @ rest"
    using replace_date_shape [of y mo d rest] by simp
  have r: "(\<forall>y mo d rest. length y = 4 \<and> list_all is_digit y \<and> length mo = 2 \<and> list_all is_digit mo
             \<and> length d = 2 \<and> list_all is_digit d
           \<longrightarrow> t \<noteq> y @ [58] @ mo @ [58] @ d @ rest)
      \<longrightarrow> replace_date t = t"
    using replace_date_no_shape [of t] by (rule impI)
  have i: "\<forall>i. i \<noteq> 4 \<and> i \<noteq> 7 \<longrightarrow> replace_date t ! i = t ! i"
    using nth_replace_date [of _ t] by simp
  from shotAt_of_tags_chain [of tags unk] f(1) n f(2) q p r length_replace_date [of t]
    drop_replace_date [of t] i
  show ?thesis by (intro conjI) (assumption | erule conjunct1 | erule conjunct2)+
qed

theorem timestamp_from_first_present_tag_witness:
  "shotAt_of_tags (no_tags\<lparr>DateTimeDigitized := text_tag (js ''2023:05:01 10:20:30'')\<rparr>)
     (js ''Unknown date'') = js ''2023-05-01 10:20:30''
   \<and> shotAt_of_tags no_tags (js ''Unknown date'') = js ''Unknown date''
   \<and> length (js ''2023'') = 4 \<and> list_all is_digit (js ''2023'')
   \<and> length (js ''05'') = 2 \<and> list_all is_digit (js ''05'')
   \<and> length (js ''01'') = 2 \<and> list_all is_digit (js ''01'')
   \<and> replace_date (js ''2023'' @ [58] @ js ''05'' @ [58] @ js ''01'' @ js '' 10:20:30'')
       = js ''2023'' @ [45] @ js ''05'' @ [45] @ js ''01'' @ js '' 10:20:30''
   \<and> \<not> date_prefix (js ''yesterday'')
   \<and> replace_date (js ''yesterday'') = js ''yesterday''
   \<and> replace_date (js ''yesterday'') ! 3 = js ''yesterday'' ! 3
   \<and> formatExifDate (VNum (Fin 5)) (js ''Unknown date'') = js ''Unknown date''
   \<and> shotAt_of_tags (no_tags\<lparr>DateTimeOriginal := number_tag 5,
          DateTimeDigitized := text_tag (js ''2023:05:01 10:20:30'')\<rparr>) (js ''Unknown date'')
       = js ''Unknown date''
   \<and> replace_date (js ''2023-05'') = js ''2023-05''"
proof -
  have digits: "length (js ''2023'') = 4" "list_all is_digit (js ''2023'')"
    "length (js ''05'') = 2" "list_all is_digit (js ''05'')"
    "length (js ''01'') = 2" "list_all is_digit (js ''01'')"
    "\<not> date_prefix (js ''yesterday'')"
    by (simp_all add: js_def is_digit_def date_prefix_def)
  note T = timestamp_from_first_present_tag
    [where tags = "no_tags\<lparr>DateTimeDigitized := text_tag (js ''2023:05:01 10:20:30'')\<rparr>"
       and unk = "js ''Unknown date''" and s = "js ''2023:05:01 10:20:30''"
       and y = "js ''2023''" and mo = "js ''05''" and d = "js ''01''" and rest = "js '' 10:20:30''"
       and t = "js ''yesterday''"]
  note U = timestamp_from_first_present_tag
    [where tags = no_tags and unk = "js ''Unknown date''"]
  have a: "shotAt_of_tags (no_tags\<lparr>DateTimeDigitized := text_tag (js ''2023:05:01 10:20:30'')\<rparr>)
     (js ''Unknown date'') = js ''2023-05-01 10:20:30''"
    using T by (simp add: no_tags_def text_tag_def opt_description_def sample_dates)
  have b: "shotAt_of_tags no_tags (js ''Unknown date'') = js ''Unknown date''"
    using U by (simp add: no_tags_def opt_description_def)
  have c: "replace_date (js ''2023'' @ [58] @ js ''05'' @ [58] @ js ''01'' @ js '' 10:20:30'')
       = js ''2023'' @ [45] @ js ''05'' @ [45] @ js ''01'' @ js '' 10:20:30''"
    using T digits by blast
  have d: "replace_date (js ''yesterday'') = js ''yesterday''"
    "replace_date (js ''yesterday'') ! 3 = js ''yesterday'' ! 3"
    using T digits(7) by simp_all
  note V = timestamp_from_first_present_tag
    [where tags = "no_tags\<lparr>DateTimeOriginal := number_tag 5,
          DateTimeDigitized := text_tag (js ''2023:05:01 10:20:30'')\<rparr>"
       and unk = "js ''Unknown date''" and raw = "VNum (Fin 5)" and t = "js ''2023-05''"]
  have e: "formatExifDate (VNum (Fin 5)) (js ''Unknown date'') = js ''Unknown date''"
    using V by simp
  have f: "shotAt_of_tags (no_tags\<lparr>DateTimeOriginal := number_tag 5,
          DateTimeDigitized := text_tag (js ''2023:05:01 10:20:30'')\<rparr>) (js ''Unknown date'')
       = js ''Unknown date''"
    using V by (simp add: no_tags_def number_tag_def text_tag_def opt_description_def)
  have "js ''2023-05'' \<noteq> y @ [58] @ mo @ [58] @ d @ rest"
    if "length y = 4" for y mo d rest :: "nat list"
  proof
    assume "js ''2023-05'' = y @ [58] @ mo @ [58] @ d @ rest"
    then have "take 5 (js ''2023-05'') = take 5 (y @ [58] @ mo @ [58] @ d @ rest)" by simp
    with that have "js ''2023-'' = y @ [58]" by (simp add: js_def)
    then show False by (simp add: js_def)
  qed
  then have g: "replace_date (js ''2023-05'') = js ''2023-05''"
    using V by blast
  show ?thesis
    using a b c d e f g digits by blast
qed

text \<open>
  C3 (the sign of an extracted coordinate follows its reference tag, and the coordinate is
  absent unless both magnitudes are finite numbers): when both magnitudes are finite
  numbers, a scalar or the first element of a sequence, the coordinate is present, its
  latitude is \<open>- \<bar>a\<bar>\<close> and so at most 0 under the reference \<open>S\<close>, its longitude is \<open>- \<bar>b\<bar>\<close>
  and so at most 0 under the reference \<open>W\<close>, and under any other or no reference the
  magnitude is kept as it is; when a magnitude is missing, not a number or not finite,
  the coordinate is absent.
\<close>

theorem gps_sign_follows_reference:
  "(toNumber (opt_value (GPSLatitude tags)) = Some (Fin a)
      \<and> toNumber (opt_value (GPSLongitude tags)) = Some (Fin b)
    \<longrightarrow> parseExifGps tags =
          Some \<lparr>lat = (if opt_description (GPSLatitudeRef tags) = VStr (js ''S'') then - \<bar>a\<bar> else a),
                lon = (if opt_description (GPSLongitudeRef tags) = VStr (js ''W'') then - \<bar>b\<bar> else b)\<rparr>
        \<and> (opt_description (GPSLatitudeRef tags) = VStr (js ''S'') \<longrightarrow> lat (the (parseExifGps tags)) \<le> 0)
        \<and> (opt_description (GPSLongitudeRef tags) = VStr (js ''W'') \<longrightarrow> lon (the (parseExifGps tags)) \<le> 0)
        \<and> (opt_description (GPSLatitudeRef tags) \<noteq> VStr (js ''S'') \<longrightarrow> lat (the (parseExifGps tags)) = a)
        \<and> (opt_description (GPSLongitudeRef tags) \<noteq> VStr (js ''W'') \<longrightarrow> lon (the (parseExifGps tags)) = b))
   \<and> ((\<forall>x. toNumber (opt_value (GPSLatitude tags)) \<noteq> Some (Fin x))
        \<or> (\<forall>x. toNumber (opt_value (GPSLongitude tags)) \<noteq> Some (Fin x))
      \<longrightarrow> parseExifGps tags = None)
   \<and> toNumber (VNum n) = Some n \<and> toNumber (VArr (VNum n # others)) = Some n
   \<and> toNumber VUndefined = None \<and> toNumber (VArr []) = None"
proof -
  have fin: "parseExifGps tags =
          Some \<lparr>lat = (if opt_description (GPSLatitudeRef tags) = VStr (js ''S'') then - \<bar>a\<bar> else a),
                lon = (if opt_description (GPSLongitudeRef tags) = VStr (js ''W'') then - \<bar>b\<bar> else b)\<rparr>"
    if "toNumber (opt_value (GPSLatitude tags)) = Some (Fin a)"
      "toNumber (opt_value (GPSLongitude tags)) = Some (Fin b)"
    using that by (simp add: parseExifGps_def Let_def)
  have absent: "parseExifGps tags = None"
    if "(\<forall>x. toNumber (opt_value (GPSLatitude tags)) \<noteq> Some (Fin x))
        \<or> (\<forall>x. toNumber (opt_value (GPSLongitude tags)) \<noteq> Some (Fin x))"
  proof (cases "toNumber (opt_value (GPSLatitude tags))")
    case None
    then show ?thesis by (simp add: parseExifGps_def Let_def)
  next
    case (Some p)
    show ?thesis
    proof (cases "toNumber (opt_value (GPSLongitude tags))")
      case None
      then show ?thesis using Some by (simp add: parseExifGps_def Let_def)
    next
      case (Some q)
      with \<open>toNumber (opt_value (GPSLatitude tags)) = Some p\<close> that show ?thesis
        by (cases p; cases q) (auto simp add: parseExifGps_def Let_def)
    qed
  qed
  show ?thesis
    using fin absent by auto
qed

theorem gps_sign_follows_reference_witness:
  "parseExifGps
     (no_tags\<lparr>GPSLatitude := number_tag (75 / 2), GPSLongitude := number_tag 127,
              GPSLatitudeRef := text_tag (js ''N''), GPSLongitudeRef := text_tag (js ''E'')\<rparr>)
     = Some \<lparr>lat = 75 / 2, lon = 127\<rparr>
   \<and> parseExifGps
       (no_tags\<lparr>GPSLatitude := Some \<lparr>tag_value = VArr [VNum (Fin (75 / 2)), VNum (Fin 0)],
                                     description = VUndefined\<rparr>,
                GPSLongitude := number_tag 127,
                GPSLatitudeRef := text_tag (js ''S''), GPSLongitudeRef := text_tag (js ''W'')\<rparr>)
       = Some \<lparr>lat = - (75 / 2), lon = - 127\<rparr>
   \<and> parseExifGps (no_tags\<lparr>GPSLatitude := number_tag (75 / 2)\<rparr>) = None"
proof -
  have ne: "VStr (js ''N'') \<noteq> VStr (js ''S'')" "VStr (js ''E'') \<noteq> VStr (js ''W'')"
    by (simp_all add: js_def)
  have a: "parseExifGps
     (no_tags\<lparr>GPSLatitude := number_tag (75 / 2), GPSLongitude := number_tag 127,
              GPSLatitudeRef := text_tag (js ''N''), GPSLongitudeRef := text_tag (js ''E'')\<rparr>)
     = Some \<lparr>lat = 75 / 2, lon = 127\<rparr>"
    using gps_sign_follows_reference
      [where tags = "no_tags\<lparr>GPSLatitude := number_tag (75 / 2), GPSLongitude := number_tag 127,
              GPSLatitudeRef := text_tag (js ''N''), GPSLongitudeRef := text_tag (js ''E'')\<rparr>"
         and a = "75 / 2" and b = 127] ne
    by (simp add: no_tags_def number_tag_def text_tag_def opt_value_def opt_description_def)
  have b: "parseExifGps
       (no_tags\<lparr>GPSLatitude := Some \<lparr>tag_value = VArr [VNum (Fin (75 / 2)), VNum (Fin 0)],
                                     description = VUndefined\<rparr>,
                GPSLongitude := number_tag 127,
                GPSLatitudeRef := text_tag (js ''S''), GPSLongitudeRef := text_tag (js ''W'')\<rparr>)
       = Some \<lparr>lat = - (75 / 2), lon = - 127\<rparr>"
    using gps_sign_follows_reference
      [where tags = "no_tags\<lparr>GPSLatitude := Some \<lparr>tag_value = VArr [VNum (Fin (75 / 2)), VNum (Fin 0)],
                                     description = VUndefined\<rparr>,
                GPSLongitude := number_tag 127,
                GPSLatitudeRef := text_tag (js ''S''), GPSLongitudeRef := text_tag (js ''W'')\<rparr>"
         and a = "75 / 2" and b = 127]
    by (simp add: no_tags_def number_tag_def text_tag_def opt_value_def opt_description_def)
  have c: "parseExifGps (no_tags\<lparr>GPSLatitude := number_tag (75 / 2)\<rparr>) = None"
    using gps_sign_follows_reference [where tags = "no_tags\<lparr>GPSLatitude := number_tag (75 / 2)\<rparr>"]
    by (simp add: no_tags_def number_tag_def opt_value_def)
  from a b c show ?thesis by blast
qed

subsection \<open>Decimal numerals and the cache key\<close>

lemma decimal_digits: "list_all is_digit (decimal n) \<and> decimal n \<noteq> []"
proof (induction n rule: decimal.induct)
  case (1 n)
  show ?case
  proof (cases "n < 10")
    case True
    then show ?thesis by (simp add: decimal.simps [of n] is_digit_def)
  next
    case False
    have "n mod 10 < 10" by simp
    then have "is_digit (48 + n mod 10)" unfolding is_digit_def by linarith
    with False 1 show ?thesis by (simp add: decimal.simps [of n])
  qed
qed

text \<open>A decimal numeral denotes its number, also behind leading zeros.\<close>

lemma value_decimal: "foldl (\<lambda>a c. 10 * a + (c - 48)) 0 (decimal n) = n"
proof (induction n rule: decimal.induct)
  case (1 n)
  show ?case
  proof (cases "n < 10")
    case True
    then show ?thesis by (simp add: decimal.simps [of n])
  next
    case False
    with 1 show ?thesis by (simp add: decimal.simps [of n])
  qed
qed

lemma value_padded:
  "foldl (\<lambda>a c. 10 * a + (c - 48)) 0 (replicate k 48 @ ds) = foldl (\<lambda>a c. 10 * a + (c - 48)) (0::nat) ds"
  by (induction k) simp_all

lemma first_separator:
  assumes "c \<notin> set a" "c \<notin> set a'" "a @ c # b = a' @ c # b'"
  shows "a = a' \<and> b = b'"
  using assms
proof (induction a arbitrary: a')
  case Nil
  then show ?case by (cases a') auto
next
  case (Cons x a)
  then show ?case by (cases a') auto
qed

lemma digits_no_separator:
  assumes "list_all is_digit ds" "\<not> is_digit c"
  shows "c \<notin> set ds"
  using assms by (auto simp add: list_all_iff)

lemma toFixed6_parts:
  "toFixed6 x = (if x < 0 then [45] else [])
      @ decimal (nat \<lfloor>\<bar>x\<bar> * 1000000 + 1 / 2\<rfloor> div 1000000) @ 46
      # replicate (6 - length (decimal (nat \<lfloor>\<bar>x\<bar> * 1000000 + 1 / 2\<rfloor> mod 1000000))) 48
      @ decimal (nat \<lfloor>\<bar>x\<bar> * 1000000 + 1 / 2\<rfloor> mod 1000000)"
  by (simp add: toFixed6_def Let_def)

lemma unsigned_inj:
  assumes "decimal (n div 1000000) @ 46 # replicate (6 - length (decimal (n mod 1000000))) 48
             @ decimal (n mod 1000000)
         = decimal (m div 1000000) @ 46 # replicate (6 - length (decimal (m mod 1000000))) 48
             @ decimal (m mod 1000000)"
  shows "n = m"
proof -
  have nd: "\<not> is_digit 46" by (simp add: is_digit_def)
  from first_separator [OF digits_no_separator digits_no_separator assms]
  have i: "decimal (n div 1000000) = decimal (m div 1000000)"
    and f: "replicate (6 - length (decimal (n mod 1000000))) 48 @ decimal (n mod 1000000)
          = replicate (6 - length (decimal (m mod 1000000))) 48 @ decimal (m mod 1000000)"
    using decimal_digits nd by simp_all
  from i have "n div 1000000 = m div 1000000"
    by (metis value_decimal)
  moreover from f have "n mod 1000000 = m mod 1000000"
    by (metis value_decimal value_padded)
  ultimately show ?thesis by (metis div_mult_mod_eq)
qed

text \<open>
  Two numbers have the same string of six decimals exactly when both are negative or both
  are not, and their magnitudes round to the same multiple of a millionth.
\<close>

lemma toFixed6_inj:
  "toFixed6 x = toFixed6 y \<longleftrightarrow>
     (x < 0 \<longleftrightarrow> y < 0) \<and> \<lfloor>\<bar>x\<bar> * 1000000 + 1 / 2\<rfloor> = \<lfloor>\<bar>y\<bar> * 1000000 + 1 / 2\<rfloor>"
proof
  assume "(x < 0 \<longleftrightarrow> y < 0) \<and> \<lfloor>\<bar>x\<bar> * 1000000 + 1 / 2\<rfloor> = \<lfloor>\<bar>y\<bar> * 1000000 + 1 / 2\<rfloor>"
  then show "toFixed6 x = toFixed6 y" by (simp add: toFixed6_def)
next
  assume e: "toFixed6 x = toFixed6 y"
  define n where "n = nat \<lfloor>\<bar>x\<bar> * 1000000 + 1 / 2\<rfloor>"
  define m where "m = nat \<lfloor>\<bar>y\<bar> * 1000000 + 1 / 2\<rfloor>"
  define u where "u k = decimal (k div 1000000) @ 46 # replicate (6 - length (decimal (k mod 1000000))) 48
             @ decimal (k mod 1000000)" for k
  have px: "toFixed6 x = (if x < 0 then [45] else []) @ u n"
    and py: "toFixed6 y = (if y < 0 then [45] else []) @ u m"
    by (simp_all add: toFixed6_parts n_def m_def u_def)
  have h: "is_digit (hd (u k)) \<and> u k \<noteq> []" for k
    using decimal_digits [of "k div 1000000"]
    by (cases "decimal (k div 1000000)") (simp_all add: u_def)
  have nd: "\<not> is_digit 45" by (simp add: is_digit_def)
  have s: "x < 0 \<longleftrightarrow> y < 0"
  proof (rule ccontr)
    assume "\<not> (x < 0 \<longleftrightarrow> y < 0)"
    then consider "x < 0" "\<not> y < 0" | "\<not> x < 0" "y < 0" by blast
    then show False
    proof cases
      case 1
      with e px py have "45 # u n = u m" by simp
      then have "hd (u m) = 45" by (metis list.sel(1))
      with h [of m] nd show False by simp
    next
      case 2
      with e px py have "u n = 45 # u m" by simp
      then have "hd (u n) = 45" by (metis list.sel(1))
      with h [of n] nd show False by simp
    qed
  qed
  with e px py have "u n = u m" by (simp split: if_splits)
  then have "n = m" unfolding u_def by (rule unsigned_inj)
  moreover have "0 \<le> \<lfloor>\<bar>x\<bar> * 1000000 + 1 / 2\<rfloor>" "0 \<le> \<lfloor>\<bar>y\<bar> * 1000000 + 1 / 2\<rfloor>"
    by simp_all
  ultimately have "\<lfloor>\<bar>x\<bar> * 1000000 + 1 / 2\<rfloor> = \<lfloor>\<bar>y\<bar> * 1000000 + 1 / 2\<rfloor>"
    unfolding n_def m_def by (metis nat_eq_iff2)
  with s show "(x < 0 \<longleftrightarrow> y < 0) \<and> \<lfloor>\<bar>x\<bar> * 1000000 + 1 / 2\<rfloor> = \<lfloor>\<bar>y\<bar> * 1000000 + 1 / 2\<rfloor>"
    by simp
qed

lemma toFixed6_no_comma: "44 \<notin> set (toFixed6 x)"
proof -
  have "\<not> is_digit 44" by (simp add: is_digit_def)
  then have "44 \<notin> set (decimal k)" for k
    using decimal_digits [of k] by (auto simp add: list_all_iff)
  then show ?thesis by (simp add: toFixed6_parts)
qed

lemma cache_key_inj:
  "cache_key g = cache_key g' \<longleftrightarrow>
     (lat g < 0 \<longleftrightarrow> lat g' < 0) \<and> (lon g < 0 \<longleftrightarrow> lon g' < 0)
     \<and> \<lfloor>\<bar>lat g\<bar> * 1000000 + 1 / 2\<rfloor> = \<lfloor>\<bar>lat g'\<bar> * 1000000 + 1 / 2\<rfloor>
     \<and> \<lfloor>\<bar>lon g\<bar> * 1000000 + 1 / 2\<rfloor> = \<lfloor>\<bar>lon g'\<bar> * 1000000 + 1 / 2\<rfloor>"
proof -
  have "cache_key g = cache_key g' \<longleftrightarrow>
      toFixed6 (lat g) = toFixed6 (lat g') \<and> toFixed6 (lon g) = toFixed6 (lon g')"
    using first_separator [of 44 "toFixed6 (lat g)" "toFixed6 (lat g')" "toFixed6 (lon g)" "toFixed6 (lon g')"]
      toFixed6_no_comma
    by (auto simp add: cache_key_def)
  then show ?thesis unfolding toFixed6_inj by blast
qed

subsection \<open>Reverse geocoding and its cache\<close>

lemma reverseGeocode_success:
  "reverseGeocode outcome = Inr (Some d) \<longleftrightarrow>
     (\<exists>body. outcome = Response True (Some body) \<and> display_name_of body = Inr (Some (JString d)))"
  by (auto simp add: reverseGeocode_def split: fetch_outcome.splits option.splits sum.splits json.splits)

lemma reverseGeocode_object:
  "reverseGeocode (Response True (Some (JObject members)))
     = Inr (case map_of (rev members) (js ''display_name'') of
              Some (JString t) \<Rightarrow> Some t
            | _ \<Rightarrow> None)"
  by (simp add: reverseGeocode_def split: option.splits json.splits)

lemma reverseGeocode_no_object:
  assumes "\<forall>members. v \<noteq> JObject members" "v \<noteq> JNull"
  shows "reverseGeocode (Response True (Some v)) = Inr None"
  using assms by (cases v) (simp_all add: reverseGeocode_def)

lemma reverseGeocode_no_string:
  assumes "display_name_of v = Inr (Some x)" "\<forall>t. x \<noteq> JString t"
  shows "reverseGeocode (Response True (Some v)) = Inr None"
  using assms by (cases x) (simp_all add: reverseGeocode_def)

lemma geocode_settle_failure:
  assumes "\<forall>d. reverseGeocode outcome = Inr (Some d) \<longrightarrow> d = []"
  shows "geocode_settle pid g outcome s = update_photo pid (\<lambda>p. p\<lparr>isGeocoding := False\<rparr>) s"
  using assms by (auto simp add: geocode_settle_def split: sum.splits option.splits)

lemma geocode_settle_success:
  assumes "reverseGeocode outcome = Inr (Some d)" "d \<noteq> []"
  shows "geocode_settle pid g outcome s
     = update_photo pid (\<lambda>p. p\<lparr>locationText := d, isGeocoding := False\<rparr>)
         (s\<lparr>geocodeCache := (geocodeCache s)(cache_key g \<mapsto> d)\<rparr>)"
  using assms by (simp add: geocode_settle_def)

lemma update_photo_simps:
  "photos (update_photo pid f s) = map (\<lambda>p. if photo_id p = pid then f p else p) (photos s)"
  "geocodeCache (update_photo pid f s) = geocodeCache s"
  "requests (update_photo pid f s) = requests s"
  "processed (update_photo pid f s) = processed s"
  "cache_hit (update_photo pid f s) g = cache_hit s g"
  by (simp_all add: update_photo_def cache_hit_def)

lemma geocode_begin_hit:
  assumes "cache_hit s g = Some c"
  shows "geocode_begin pid g s = update_photo pid (\<lambda>p. p\<lparr>locationText := c, isGeocoding := False\<rparr>) s"
  using assms by (simp add: geocode_begin_def)

lemma geocode_begin_miss:
  assumes "cache_hit s g = None"
  shows "geocode_begin pid g s
     = (update_photo pid (\<lambda>p. p\<lparr>isGeocoding := True\<rparr>) s)\<lparr>requests := requests s @ [g]\<rparr>"
  using assms by (simp add: geocode_begin_def)

lemma geocode_begin_fields:
  "requests (geocode_begin pid g s) = (if cache_hit s g = None then requests s @ [g] else requests s)"
  "geocodeCache (geocode_begin pid g s) = geocodeCache s"
  "cache_hit (geocode_begin pid g s) g' = cache_hit s g'"
  by (auto simp add: geocode_begin_def update_photo_def cache_hit_def split: option.splits)

lemma geocode_settle_requests: "requests (geocode_settle pid g outcome s) = requests s"
  by (simp add: geocode_settle_def update_photo_def split: sum.splits option.splits)

lemma resolution_states:
  "cache_hit s g = Some c \<Longrightarrow>
     geocode_begin pid g s
       = s\<lparr>photos := map (\<lambda>p. if photo_id p = pid then p\<lparr>locationText := c, isGeocoding := False\<rparr> else p)
                      (photos s)\<rparr>"
  "cache_hit s g = None \<Longrightarrow>
     geocode_begin pid g s
       = s\<lparr>photos := map (\<lambda>p. if photo_id p = pid then p\<lparr>isGeocoding := True\<rparr> else p) (photos s),
           requests := requests s @ [g]\<rparr>"
  "reverseGeocode outcome = Inr (Some d) \<and> d \<noteq> [] \<Longrightarrow>
     geocode_settle pid g outcome s
       = s\<lparr>geocodeCache := (geocodeCache s)(cache_key g \<mapsto> d),
           photos := map (\<lambda>p. if photo_id p = pid then p\<lparr>locationText := d, isGeocoding := False\<rparr> else p)
                      (photos s)\<rparr>"
  "\<forall>x. reverseGeocode outcome = Inr (Some x) \<longrightarrow> x = [] \<Longrightarrow>
     geocode_settle pid g outcome s
       = s\<lparr>photos := map (\<lambda>p. if photo_id p = pid then p\<lparr>isGeocoding := False\<rparr> else p) (photos s)\<rparr>"
  by (simp_all add: geocode_begin_hit geocode_begin_miss geocode_settle_success
      geocode_settle_failure update_photo_def)

lemma cache_hit_same_key: "cache_key g' = cache_key g \<Longrightarrow> cache_hit s g' = cache_hit s g"
  by (simp add: cache_hit_def)

lemma map_locationText_flag:
  "map locationText (map (\<lambda>p. if photo_id p = pid then p\<lparr>isGeocoding := b\<rparr> else p) ps)
     = map locationText ps"
  by (induction ps) simp_all

lemma settle_after_begin_failure:
  assumes "cache_hit s g = None" "\<forall>d. reverseGeocode outcome = Inr (Some d) \<longrightarrow> d = []"
  shows "photos (geocode_settle pid g outcome (geocode_begin pid g s))
           = map (\<lambda>p. if photo_id p = pid then p\<lparr>isGeocoding := False\<rparr> else p) (photos s)"
  using assms
  by (simp add: geocode_settle_failure geocode_begin_miss update_photo_def comp_def)

lemma cache_hit_empty: "geocodeCache s = Map.empty \<Longrightarrow> cache_hit s g = None"
  by (simp add: cache_hit_def)

lemma sample_app_fields:
  "geocodeCache sample_app = Map.empty" "requests sample_app = []"
  "photos sample_app = [sample_draft (js ''37.500000, 127.000000'')]"
  by (simp_all add: sample_app_def empty_app_def)

lemma sample_responses:
  "reverseGeocode seoul_response = Inr (Some (js ''Seoul''))"
  "reverseGeocode (Response False None) = Inr None"
  "reverseGeocode NetworkFailure = Inl TypeError"
  "display_name_of (JObject []) = Inr None"
  "js ''Seoul'' \<noteq> []"
  by (simp_all add: reverseGeocode_def seoul_response_def js_def)

lemma sample_decimals:
  "decimal 37 = js ''37''" "decimal 127 = js ''127''" "decimal 500000 = js ''500000''"
  "decimal 0 = js ''0''" "decimal 1 = js ''1''"
  by (simp_all add: decimal.simps js_def)

lemma replicate_5: "replicate 5 x = [x, x, x, x, x]"
  by (simp add: numeral_eq_Suc)

lemma sample_key: "cache_key sample_coord = js ''37.500000,127.000000''"
proof -
  have "toFixed6 (75 / 2) = js ''37.500000''" "toFixed6 127 = js ''127.000000''"
    by (simp_all add: toFixed6_def Let_def sample_decimals) (simp_all add: js_def replicate_5)
  then show ?thesis by (simp add: cache_key_def sample_coord_def) (simp add: js_def)
qed

lemma gps_draft_of_file:
  "gps (draft_of_file msgs url f i) = (case exif f of Some tags \<Rightarrow> parseExifGps tags | None \<Rightarrow> None)"
  by (simp add: draft_of_file_def Let_def split: option.splits)

lemma parseExifGps_gps_tags: "parseExifGps gps_tags = Some sample_coord"
proof -
  have ne: "VStr (js ''N'') \<noteq> VStr (js ''S'')" "VStr (js ''E'') \<noteq> VStr (js ''W'')"
    by (simp_all add: js_def)
  show ?thesis
    using ne
    by (simp add: parseExifGps_def Let_def gps_tags_def no_tags_def number_tag_def text_tag_def
        opt_value_def opt_description_def sample_coord_def)
qed

lemma requests_two_begins:
  assumes "cache_hit s g = None" "cache_key g' = cache_key g"
  shows "requests (geocode_begin pid' g' (geocode_begin pid g s)) = requests s @ [g, g']"
proof -
  have "cache_hit (geocode_begin pid g s) g' = None"
    using assms cache_hit_same_key [of g' g s] by (simp add: geocode_begin_fields)
  with assms(1) show ?thesis by (simp add: geocode_begin_fields)
qed

lemma drop_of_two_files:
  "requests (onDrop sample_messages sample_url [gps_file (js ''a.jpg''), gps_file (js ''b.jpg'')] empty_app)
     = [sample_coord, sample_coord]"
proof -
  have p: "parse_files sample_messages sample_url [gps_file (js ''a.jpg''), gps_file (js ''b.jpg'')]
      = [draft_of_file sample_messages sample_url (gps_file (js ''a.jpg'')) 0,
         draft_of_file sample_messages sample_url (gps_file (js ''b.jpg'')) 1]"
    by (simp add: parse_files_def numeral_2_eq_2)
  have g: "gps (draft_of_file sample_messages sample_url (gps_file n) i) = Some sample_coord" for n i
    by (simp add: gps_draft_of_file gps_file_def parseExifGps_gps_tags)
  have m: "cache_hit (empty_app\<lparr>errorMsg := [], photos := ps\<rparr>) sample_coord = None" for ps
    by (simp add: cache_hit_def empty_app_def)
  have r: "requests (empty_app\<lparr>errorMsg := [], photos := ps\<rparr>) = []" for ps
    by (simp add: empty_app_def)
  define s0 where "s0 = empty_app\<lparr>errorMsg := [], photos := photos empty_app
      @ [draft_of_file sample_messages sample_url (gps_file (js ''a.jpg'')) 0,
         draft_of_file sample_messages sample_url (gps_file (js ''b.jpg'')) 1]\<rparr>"
  have "onDrop sample_messages sample_url [gps_file (js ''a.jpg''), gps_file (js ''b.jpg'')] empty_app
      = geocode_begin (photo_id (draft_of_file sample_messages sample_url (gps_file (js ''b.jpg'')) 1))
          sample_coord
          (geocode_begin (photo_id (draft_of_file sample_messages sample_url (gps_file (js ''a.jpg'')) 0))
             sample_coord s0)"
    unfolding onDrop_def Let_def p s0_def [symmetric] by (simp add: g)
  moreover have "cache_hit s0 sample_coord = None" "requests s0 = []"
    unfolding s0_def by (rule m, rule r)
  ultimately show ?thesis
    by (simp add: requests_two_begins)
qed

lemma near_key: "cache_key \<lparr>lat = 375000001 / 10000000, lon = 127\<rparr> = cache_key sample_coord"
  unfolding cache_key_inj by (simp add: sample_coord_def)

text \<open>
  C6, as stated (the resolution never raises, and yields null on a network error): false.
  \<open>reverseGeocode\<close> has no handler of its own: a rejected request, a body that is not
  JSON and a body that is the JSON value null make it raise.
\<close>

theorem reverseGeocode_raises_counterexample:
  "reverseGeocode NetworkFailure = Inl TypeError
   \<and> reverseGeocode (Response True None) = Inl SyntaxError
   \<and> reverseGeocode (Response True (Some JNull)) = Inl TypeError"
  by (simp add: reverseGeocode_def)

text \<open>
  C6, amended: \<open>reverseGeocode\<close> returns the display name exactly when the response is ok
  and its body has a string under \<^verbatim>\<open>display_name\<close>. It returns null when the response
  is not ok, when the body is an object without that property or with a value there that
  is not a string (the last of several entries of that name counts), and when the body is
  a boolean, a number, a string or an array. It raises when the request is rejected, when
  the body is not JSON and when the body is null. The handler of \<^verbatim>\<open>triggerReverseGeocode\<close>
  catches that: whenever a request settles without a display name that is not empty,
  whatever has run since the request was made, the flag \<open>isGeocoding\<close> of the draft is
  cleared and nothing else changes: the location text of every draft and the cache are as
  before. The part before the request sets only that flag. So a resolution that fails
  leaves every location text and the cache as the resolution found them.
\<close>

theorem geocoding_failure_keeps_location:
  "(reverseGeocode outcome = Inr (Some d) \<longleftrightarrow>
     (\<exists>body. outcome = Response True (Some body) \<and> display_name_of body = Inr (Some (JString d))))
   \<and> reverseGeocode (Response False body) = Inr None
   \<and> (display_name_of v = Inr None \<longrightarrow> reverseGeocode (Response True (Some v)) = Inr None)
   \<and> (display_name_of v = Inr (Some x) \<and> (\<forall>t. x \<noteq> JString t)
        \<longrightarrow> reverseGeocode (Response True (Some v)) = Inr None)
   \<and> (display_name_of v = Inl err \<longrightarrow> reverseGeocode (Response True (Some v)) = Inl err)
   \<and> reverseGeocode (Response True (Some (JObject members)))
       = Inr (case map_of (rev members) (js ''display_name'') of
                Some (JString t) \<Rightarrow> Some t
              | _ \<Rightarrow> None)
   \<and> ((\<forall>ms. v \<noteq> JObject ms) \<and> v \<noteq> JNull \<longrightarrow> reverseGeocode (Response True (Some v)) = Inr None)
   \<and> reverseGeocode (Response True (Some JNull)) = Inl TypeError
   \<and> reverseGeocode NetworkFailure = Inl TypeError
   \<and> reverseGeocode (Response True None) = Inl SyntaxError
   \<and> ((\<forall>x. reverseGeocode outcome = Inr (Some x) \<longrightarrow> x = []) \<longrightarrow>
        geocode_settle pid g outcome s
          = s\<lparr>photos := map (\<lambda>p. if photo_id p = pid then p\<lparr>isGeocoding := False\<rparr> else p) (photos s)\<rparr>
        \<and> photos (geocode_settle pid g outcome s)
          = map (\<lambda>p. if photo_id p = pid then p\<lparr>isGeocoding := False\<rparr> else p) (photos s)
        \<and> map locationText (photos (geocode_settle pid g outcome s)) = map locationText (photos s)
        \<and> geocodeCache (geocode_settle pid g outcome s) = geocodeCache s)
   \<and> (cache_hit s g = None \<longrightarrow>
        geocode_begin pid g s
          = s\<lparr>photos := map (\<lambda>p. if photo_id p = pid then p\<lparr>isGeocoding := True\<rparr> else p) (photos s),
              requests := requests s @ [g]\<rparr>
        \<and> photos (geocode_begin pid g s)
          = map (\<lambda>p. if photo_id p = pid then p\<lparr>isGeocoding := True\<rparr> else p) (photos s)
        \<and> map locationText (photos (geocode_begin pid g s)) = map locationText (photos s)
        \<and> geocodeCache (geocode_begin pid g s) = geocodeCache s)
   \<and> (cache_hit s g = None \<and> (\<forall>x. reverseGeocode outcome = Inr (Some x) \<longrightarrow> x = []) \<longrightarrow>
        photos (geocode_settle pid g outcome (geocode_begin pid g s))
          = map (\<lambda>p. if photo_id p = pid then p\<lparr>isGeocoding := False\<rparr> else p) (photos s)
        \<and> map locationText (photos (geocode_settle pid g outcome (geocode_begin pid g s)))
            = map locationText (photos s)
        \<and> geocodeCache (geocode_settle pid g outcome (geocode_begin pid g s)) = geocodeCache s)"
proof -
  have r: "(display_name_of v = Inr None \<longrightarrow> reverseGeocode (Response True (Some v)) = Inr None)
      \<and> (display_name_of v = Inl err \<longrightarrow> reverseGeocode (Response True (Some v)) = Inl err)
      \<and> reverseGeocode (Response False body) = Inr None
      \<and> reverseGeocode (Response True (Some JNull)) = Inl TypeError
      \<and> reverseGeocode NetworkFailure = Inl TypeError
      \<and> reverseGeocode (Response True None) = Inl SyntaxError"
    by (simp add: reverseGeocode_def)
  have st: "geocode_settle pid g outcome s'
          = s'\<lparr>photos := map (\<lambda>p. if photo_id p = pid then p\<lparr>isGeocoding := False\<rparr> else p) (photos s')\<rparr>
        \<and> photos (geocode_settle pid g outcome s')
          = map (\<lambda>p. if photo_id p = pid then p\<lparr>isGeocoding := False\<rparr> else p) (photos s')
        \<and> map locationText (photos (geocode_settle pid g outcome s')) = map locationText (photos s')
        \<and> geocodeCache (geocode_settle pid g outcome s') = geocodeCache s'"
    if "\<forall>x. reverseGeocode outcome = Inr (Some x) \<longrightarrow> x = []" for s'
    using that resolution_states(4) [OF that, of pid g s']
    by (simp add: geocode_settle_failure update_photo_simps map_locationText_flag)
  have bg: "geocode_begin pid g s
          = s\<lparr>photos := map (\<lambda>p. if photo_id p = pid then p\<lparr>isGeocoding := True\<rparr> else p) (photos s),
              requests := requests s @ [g]\<rparr>
        \<and> photos (geocode_begin pid g s)
          = map (\<lambda>p. if photo_id p = pid then p\<lparr>isGeocoding := True\<rparr> else p) (photos s)
        \<and> map locationText (photos (geocode_begin pid g s)) = map locationText (photos s)
        \<and> geocodeCache (geocode_begin pid g s) = geocodeCache s"
    if "cache_hit s g = None"
    using that resolution_states(2) [OF that, of pid]
    by (simp add: geocode_begin_miss update_photo_simps map_locationText_flag)
  have both: "photos (geocode_settle pid g outcome (geocode_begin pid g s))
          = map (\<lambda>p. if photo_id p = pid then p\<lparr>isGeocoding := False\<rparr> else p) (photos s)
        \<and> map locationText (photos (geocode_settle pid g outcome (geocode_begin pid g s)))
            = map locationText (photos s)
        \<and> geocodeCache (geocode_settle pid g outcome (geocode_begin pid g s)) = geocodeCache s"
    if "cache_hit s g = None" "\<forall>x. reverseGeocode outcome = Inr (Some x) \<longrightarrow> x = []"
    using settle_after_begin_failure [OF that, of pid] st [OF that(2), of "geocode_begin pid g s"]
      bg [OF that(1)]
    by (simp add: map_locationText_flag)
  show ?thesis
    using reverseGeocode_success [of outcome d] reverseGeocode_object [of members]
      reverseGeocode_no_object [of v] reverseGeocode_no_string [of v x] r st [of s] bg both
    by blast
qed

theorem geocoding_failure_keeps_location_witness:
  "reverseGeocode seoul_response = Inr (Some (js ''Seoul''))
   \<and> display_name_of (JObject []) = Inr None
   \<and> reverseGeocode (Response True (Some (JObject []))) = Inr None
   \<and> display_name_of (JObject [(js ''display_name'', JNumber 5)]) = Inr (Some (JNumber 5))
   \<and> reverseGeocode (Response True (Some (JObject [(js ''display_name'', JNumber 5)]))) = Inr None
   \<and> display_name_of JNull = Inl TypeError
   \<and> reverseGeocode (Response True (Some JNull)) = Inl TypeError
   \<and> reverseGeocode (Response True (Some (JBool True))) = Inr None
   \<and> cache_hit sample_app sample_coord = None
   \<and> reverseGeocode NetworkFailure = Inl TypeError
   \<and> map isGeocoding (photos (geocode_begin (js ''a.jpg-0-1000'') sample_coord sample_app)) = [True]
   \<and> map locationText
       (photos (geocode_settle (js ''a.jpg-0-1000'') sample_coord NetworkFailure
          (geocode_begin (js ''a.jpg-0-1000'') sample_coord sample_app)))
       = [js ''37.500000, 127.000000'']
   \<and> map isGeocoding
       (photos (geocode_settle (js ''a.jpg-0-1000'') sample_coord NetworkFailure
          (geocode_begin (js ''a.jpg-0-1000'') sample_coord sample_app)))
       = [False]"
proof -
  have m0: "cache_hit sample_app sample_coord = None"
    by (simp add: cache_hit_empty sample_app_fields)
  have dn: "display_name_of (JObject [(js ''display_name'', JNumber 5)]) = Inr (Some (JNumber 5))"
    "display_name_of JNull = Inl TypeError"
    by simp_all
  note T = geocoding_failure_keeps_location
    [where outcome = NetworkFailure and s = sample_app and g = sample_coord and v = "JObject []"
       and pid = "js ''a.jpg-0-1000''"]
  note U = geocoding_failure_keeps_location
    [where v = "JObject [(js ''display_name'', JNumber 5)]" and x = "JNumber 5"]
  note V = geocoding_failure_keeps_location [where v = JNull and err = TypeError]
  note W = geocoding_failure_keeps_location [where v = "JBool True"]
  have a: "reverseGeocode (Response True (Some (JObject []))) = Inr None"
    using T sample_responses(4) by blast
  have b: "reverseGeocode (Response True (Some (JObject [(js ''display_name'', JNumber 5)]))) = Inr None"
    using U dn(1) by blast
  have c: "reverseGeocode (Response True (Some JNull)) = Inl TypeError"
    using V by blast
  have d: "reverseGeocode (Response True (Some (JBool True))) = Inr None"
    using W by blast
  have f: "\<forall>x. reverseGeocode NetworkFailure = Inr (Some x) \<longrightarrow> x = []"
    by (simp add: sample_responses)
  have e1: "photos (geocode_begin (js ''a.jpg-0-1000'') sample_coord sample_app)
          = map (\<lambda>p. if photo_id p = js ''a.jpg-0-1000'' then p\<lparr>isGeocoding := True\<rparr> else p)
              (photos sample_app)"
    using T m0 by blast
  have e2: "photos (geocode_settle (js ''a.jpg-0-1000'') sample_coord NetworkFailure
          (geocode_begin (js ''a.jpg-0-1000'') sample_coord sample_app))
          = map (\<lambda>p. if photo_id p = js ''a.jpg-0-1000'' then p\<lparr>isGeocoding := False\<rparr> else p)
              (photos sample_app)"
    using T m0 f by blast
  show ?thesis
    using a b c d m0 dn
    by (simp add: e1 e2 sample_responses sample_app_fields sample_draft_def)
qed

text \<open>
  C8, as stated (resolving the same coordinate twice issues at most one network call):
  false, in two ways. Nothing is cached for a resolution that fails, so the next
  resolution of the same coordinate calls the service again. And the cache is written
  only when a request settles, while a drop starts the resolutions of all its files before
  any request settles: two files of one drop with the same coordinate cause two calls.
\<close>

theorem failed_resolution_is_not_cached_counterexample:
  "requests
     (geocode_begin (js ''a.jpg-0-1000'') sample_coord
        (geocode_settle (js ''a.jpg-0-1000'') sample_coord (Response False None)
           (geocode_begin (js ''a.jpg-0-1000'') sample_coord sample_app)))
     = [sample_coord, sample_coord]
   \<and> requests (onDrop sample_messages sample_url
        [gps_file (js ''a.jpg''), gps_file (js ''b.jpg'')] empty_app)
     = [sample_coord, sample_coord]"
proof -
  have m0: "cache_hit sample_app sample_coord = None"
    by (simp add: cache_hit_empty sample_app_fields)
  have f: "\<forall>d. reverseGeocode (Response False None) = Inr (Some d) \<longrightarrow> d = []"
    by (simp add: sample_responses)
  have "requests
     (geocode_begin (js ''a.jpg-0-1000'') sample_coord
        (geocode_settle (js ''a.jpg-0-1000'') sample_coord (Response False None)
           (geocode_begin (js ''a.jpg-0-1000'') sample_coord sample_app)))
     = [sample_coord, sample_coord]"
    using m0
    by (simp add: geocode_begin_fields geocode_settle_failure [OF f] update_photo_simps
        sample_app_fields)
  with drop_of_two_files show ?thesis by simp
qed

text \<open>
  C8, amended. A resolution reads the cache once, when it begins: when it finds an entry
  for its key that is not empty it makes no request, leaves the cache as it is and sets
  the location text of the draft to the entry; otherwise it makes one request. The cache
  is written only when a request settles with a display name that is not empty, under the
  key of the coordinate of that request; a request that settles in any other way leaves
  the cache as it is, and settling makes no request. So a resolution that begins after a
  request for the same key has settled with a name makes no request and shows that name.
  A resolution that begins while the request of an earlier one for the same key is still
  out, or after that request has failed, makes a request of its own. Two coordinates have
  the same key exactly when their latitudes, and likewise their longitudes, are both
  negative or both not and have the same magnitude after rounding to six decimals.
\<close>

theorem cached_resolution_makes_no_request:
  "(cache_hit s g = Some c \<longrightarrow>
      geocode_begin pid g s
        = s\<lparr>photos := map (\<lambda>p. if photo_id p = pid then p\<lparr>locationText := c, isGeocoding := False\<rparr> else p)
                       (photos s)\<rparr>
      \<and> requests (geocode_begin pid g s) = requests s
      \<and> geocodeCache (geocode_begin pid g s) = geocodeCache s
      \<and> photos (geocode_begin pid g s)
          = map (\<lambda>p. if photo_id p = pid then p\<lparr>locationText := c, isGeocoding := False\<rparr> else p) (photos s))
   \<and> (cache_hit s g = None \<longrightarrow>
      geocode_begin pid g s
        = s\<lparr>photos := map (\<lambda>p. if photo_id p = pid then p\<lparr>isGeocoding := True\<rparr> else p) (photos s),
            requests := requests s @ [g]\<rparr>
      \<and> requests (geocode_begin pid g s) = requests s @ [g]
      \<and> geocodeCache (geocode_begin pid g s) = geocodeCache s)
   \<and> requests (geocode_settle pid g outcome s) = requests s
   \<and> (reverseGeocode outcome = Inr (Some d) \<and> d \<noteq> [] \<longrightarrow>
      geocode_settle pid g outcome s
        = s\<lparr>geocodeCache := (geocodeCache s)(cache_key g \<mapsto> d),
            photos := map (\<lambda>p. if photo_id p = pid then p\<lparr>locationText := d, isGeocoding := False\<rparr> else p)
                       (photos s)\<rparr>
      \<and> geocodeCache (geocode_settle pid g outcome s) = (geocodeCache s)(cache_key g \<mapsto> d)
      \<and> photos (geocode_settle pid g outcome s)
          = map (\<lambda>p. if photo_id p = pid then p\<lparr>locationText := d, isGeocoding := False\<rparr> else p) (photos s)
      \<and> (cache_key g' = cache_key g \<longrightarrow> cache_hit (geocode_settle pid g outcome s) g' = Some d))
   \<and> ((\<forall>x. reverseGeocode outcome = Inr (Some x) \<longrightarrow> x = []) \<longrightarrow>
      geocode_settle pid g outcome s
        = s\<lparr>photos := map (\<lambda>p. if photo_id p = pid then p\<lparr>isGeocoding := False\<rparr> else p) (photos s)\<rparr>
      \<and> geocodeCache (geocode_settle pid g outcome s) = geocodeCache s)
   \<and> (cache_hit s g = None \<and> reverseGeocode outcome = Inr (Some d) \<and> d \<noteq> []
        \<and> cache_key g' = cache_key g \<longrightarrow>
      requests (geocode_begin pid' g' (geocode_settle pid g outcome (geocode_begin pid g s)))
          = requests s @ [g]
      \<and> photos (geocode_begin pid' g' (geocode_settle pid g outcome (geocode_begin pid g s)))
          = map (\<lambda>p. if photo_id p = pid' then p\<lparr>locationText := d, isGeocoding := False\<rparr> else p)
              (photos (geocode_settle pid g outcome (geocode_begin pid g s))))
   \<and> (cache_hit s g = None \<and> cache_key g' = cache_key g \<longrightarrow>
      requests (geocode_begin pid' g' (geocode_begin pid g s)) = requests s @ [g, g'])
   \<and> (cache_hit s g = None \<and> (\<forall>x. reverseGeocode outcome = Inr (Some x) \<longrightarrow> x = [])
        \<and> cache_key g' = cache_key g \<longrightarrow>
      requests (geocode_begin pid' g' (geocode_settle pid g outcome (geocode_begin pid g s)))
          = requests s @ [g, g'])
   \<and> (cache_key g = cache_key g' \<longleftrightarrow>
        (lat g < 0 \<longleftrightarrow> lat g' < 0) \<and> (lon g < 0 \<longleftrightarrow> lon g' < 0)
        \<and> \<lfloor>\<bar>lat g\<bar> * 1000000 + 1 / 2\<rfloor> = \<lfloor>\<bar>lat g'\<bar> * 1000000 + 1 / 2\<rfloor>
        \<and> \<lfloor>\<bar>lon g\<bar> * 1000000 + 1 / 2\<rfloor> = \<lfloor>\<bar>lon g'\<bar> * 1000000 + 1 / 2\<rfloor>)"
proof -
  have hit: "geocode_begin pid g s
        = s\<lparr>photos := map (\<lambda>p. if photo_id p = pid then p\<lparr>locationText := c, isGeocoding := False\<rparr> else p)
                       (photos s)\<rparr>
      \<and> requests (geocode_begin pid g s) = requests s
      \<and> geocodeCache (geocode_begin pid g s) = geocodeCache s
      \<and> photos (geocode_begin pid g s)
          = map (\<lambda>p. if photo_id p = pid then p\<lparr>locationText := c, isGeocoding := False\<rparr> else p) (photos s)"
    if "cache_hit s g = Some c"
    using that resolution_states(1) [OF that, of pid]
    by (simp add: geocode_begin_hit update_photo_simps)
  have miss: "geocode_begin pid g s
        = s\<lparr>photos := map (\<lambda>p. if photo_id p = pid then p\<lparr>isGeocoding := True\<rparr> else p) (photos s),
            requests := requests s @ [g]\<rparr>
      \<and> requests (geocode_begin pid g s) = requests s @ [g]
      \<and> geocodeCache (geocode_begin pid g s) = geocodeCache s"
    if "cache_hit s g = None"
    using that resolution_states(2) [OF that, of pid]
    by (simp add: geocode_begin_fields)
  have ok: "geocode_settle pid g outcome s'
        = s'\<lparr>geocodeCache := (geocodeCache s')(cache_key g \<mapsto> d),
            photos := map (\<lambda>p. if photo_id p = pid then p\<lparr>locationText := d, isGeocoding := False\<rparr> else p)
                       (photos s')\<rparr>
      \<and> geocodeCache (geocode_settle pid g outcome s') = (geocodeCache s')(cache_key g \<mapsto> d)
      \<and> photos (geocode_settle pid g outcome s')
          = map (\<lambda>p. if photo_id p = pid then p\<lparr>locationText := d, isGeocoding := False\<rparr> else p) (photos s')
      \<and> (cache_key g' = cache_key g \<longrightarrow> cache_hit (geocode_settle pid g outcome s') g' = Some d)"
    if "reverseGeocode outcome = Inr (Some d) \<and> d \<noteq> []" for s'
    using that resolution_states(3) [OF that, of pid g s']
    by (simp add: geocode_settle_success update_photo_simps) (simp add: cache_hit_def)
  have failed: "geocode_settle pid g outcome s'
        = s'\<lparr>photos := map (\<lambda>p. if photo_id p = pid then p\<lparr>isGeocoding := False\<rparr> else p) (photos s')\<rparr>
      \<and> geocodeCache (geocode_settle pid g outcome s') = geocodeCache s'"
    if "\<forall>x. reverseGeocode outcome = Inr (Some x) \<longrightarrow> x = []" for s'
    using that resolution_states(4) [OF that, of pid g s']
    by (simp add: geocode_settle_failure update_photo_simps)
  have after_ok: "requests (geocode_begin pid' g' (geocode_settle pid g outcome (geocode_begin pid g s)))
          = requests s @ [g]
      \<and> photos (geocode_begin pid' g' (geocode_settle pid g outcome (geocode_begin pid g s)))
          = map (\<lambda>p. if photo_id p = pid' then p\<lparr>locationText := d, isGeocoding := False\<rparr> else p)
              (photos (geocode_settle pid g outcome (geocode_begin pid g s)))"
    if a: "cache_hit s g = None \<and> reverseGeocode outcome = Inr (Some d) \<and> d \<noteq> []
        \<and> cache_key g' = cache_key g"
  proof -
    from a ok [of "geocode_begin pid g s"]
    have h: "cache_hit (geocode_settle pid g outcome (geocode_begin pid g s)) g' = Some d" by blast
    from a show ?thesis
      by (simp add: geocode_begin_hit [OF h] update_photo_simps geocode_settle_requests
          geocode_begin_fields)
  qed
  have in_flight: "requests (geocode_begin pid' g' (geocode_begin pid g s)) = requests s @ [g, g']"
    if "cache_hit s g = None \<and> cache_key g' = cache_key g"
    using that by (simp add: requests_two_begins)
  have after_failure:
    "requests (geocode_begin pid' g' (geocode_settle pid g outcome (geocode_begin pid g s)))
          = requests s @ [g, g']"
    if a: "cache_hit s g = None \<and> (\<forall>x. reverseGeocode outcome = Inr (Some x) \<longrightarrow> x = [])
        \<and> cache_key g' = cache_key g"
  proof -
    from a have f: "\<forall>x. reverseGeocode outcome = Inr (Some x) \<longrightarrow> x = []" by simp
    from a have "cache_hit s g' = None" using cache_hit_same_key [of g' g s] by simp
    with a show ?thesis
      by (simp add: geocode_begin_fields geocode_settle_failure [OF f] update_photo_simps)
  qed
  show ?thesis
    using hit miss ok [of s] failed [of s] after_ok in_flight after_failure
      geocode_settle_requests [of pid g outcome s] cache_key_inj [of g g']
    by blast
qed

theorem cached_resolution_makes_no_request_witness:
  "cache_hit sample_app sample_coord = None
   \<and> reverseGeocode seoul_response = Inr (Some (js ''Seoul''))
   \<and> js ''Seoul'' \<noteq> []
   \<and> cache_key sample_coord = js ''37.500000,127.000000''
   \<and> cache_key \<lparr>lat = 375000001 / 10000000, lon = 127\<rparr> = cache_key sample_coord
   \<and> requests (geocode_begin (js ''a.jpg-0-1000'') sample_coord sample_app) = [sample_coord]
   \<and> cache_hit (geocode_settle (js ''a.jpg-0-1000'') sample_coord seoul_response
        (geocode_begin (js ''a.jpg-0-1000'') sample_coord sample_app))
        \<lparr>lat = 375000001 / 10000000, lon = 127\<rparr> = Some (js ''Seoul'')
   \<and> requests
       (geocode_begin (js ''a.jpg-0-1000'') \<lparr>lat = 375000001 / 10000000, lon = 127\<rparr>
          (geocode_settle (js ''a.jpg-0-1000'') sample_coord seoul_response
             (geocode_begin (js ''a.jpg-0-1000'') sample_coord sample_app)))
       = [sample_coord]
   \<and> map locationText
       (photos (geocode_begin (js ''a.jpg-0-1000'') \<lparr>lat = 375000001 / 10000000, lon = 127\<rparr>
          (geocode_settle (js ''a.jpg-0-1000'') sample_coord seoul_response
             (geocode_begin (js ''a.jpg-0-1000'') sample_coord sample_app))))
       = [js ''Seoul'']
   \<and> requests
       (geocode_begin (js ''a.jpg-0-1000'') \<lparr>lat = 375000001 / 10000000, lon = 127\<rparr>
          (geocode_begin (js ''a.jpg-0-1000'') sample_coord sample_app))
       = [sample_coord, \<lparr>lat = 375000001 / 10000000, lon = 127\<rparr>]
   \<and> requests
       (geocode_begin (js ''a.jpg-0-1000'') \<lparr>lat = 375000001 / 10000000, lon = 127\<rparr>
          (geocode_settle (js ''a.jpg-0-1000'') sample_coord NetworkFailure
             (geocode_begin (js ''a.jpg-0-1000'') sample_coord sample_app)))
       = [sample_coord, \<lparr>lat = 375000001 / 10000000, lon = 127\<rparr>]"
proof -
  let ?g' = "\<lparr>lat = 375000001 / 10000000, lon = 127\<rparr> :: GpsCoord"
  let ?s1 = "geocode_begin (js ''a.jpg-0-1000'') sample_coord sample_app"
  let ?s2 = "geocode_settle (js ''a.jpg-0-1000'') sample_coord seoul_response ?s1"
  have m0: "cache_hit sample_app sample_coord = None"
    by (simp add: cache_hit_empty sample_app_fields)
  have r: "(lat ?g' < 0 \<longleftrightarrow> lat sample_coord < 0) \<and> (lon ?g' < 0 \<longleftrightarrow> lon sample_coord < 0)
        \<and> \<lfloor>\<bar>lat ?g'\<bar> * 1000000 + 1 / 2\<rfloor> = \<lfloor>\<bar>lat sample_coord\<bar> * 1000000 + 1 / 2\<rfloor>
        \<and> \<lfloor>\<bar>lon ?g'\<bar> * 1000000 + 1 / 2\<rfloor> = \<lfloor>\<bar>lon sample_coord\<bar> * 1000000 + 1 / 2\<rfloor>"
    by (simp add: sample_coord_def)
  have f: "\<forall>x. reverseGeocode NetworkFailure = Inr (Some x) \<longrightarrow> x = []"
    by (simp add: sample_responses)
  have ok: "reverseGeocode seoul_response = Inr (Some (js ''Seoul'')) \<and> js ''Seoul'' \<noteq> []"
    by (simp add: sample_responses)
  note T = cached_resolution_makes_no_request
    [where s = sample_app and g = sample_coord and g' = ?g' and outcome = seoul_response
       and d = "js ''Seoul''" and pid = "js ''a.jpg-0-1000''" and pid' = "js ''a.jpg-0-1000''"]
  note U = cached_resolution_makes_no_request
    [where s = ?s1 and g = sample_coord and g' = ?g' and outcome = seoul_response
       and d = "js ''Seoul''" and pid = "js ''a.jpg-0-1000''"]
  note V = cached_resolution_makes_no_request
    [where s = sample_app and g = sample_coord and g' = ?g' and outcome = NetworkFailure
       and pid = "js ''a.jpg-0-1000''" and pid' = "js ''a.jpg-0-1000''"]
  note W = cached_resolution_makes_no_request [where g = ?g' and g' = sample_coord]
  note key = W [THEN conjunct2, THEN conjunct2, THEN conjunct2, THEN conjunct2, THEN conjunct2,
    THEN conjunct2, THEN conjunct2, THEN conjunct2]
  note miss = T [THEN conjunct2, THEN conjunct1, rule_format, OF m0]
  note settled_ok = U [THEN conjunct2, THEN conjunct2, THEN conjunct2, THEN conjunct1,
    rule_format, OF ok]
  note after_ok = T [THEN conjunct2, THEN conjunct2, THEN conjunct2, THEN conjunct2,
    THEN conjunct2, THEN conjunct1, rule_format]
  note in_flight = T [THEN conjunct2, THEN conjunct2, THEN conjunct2, THEN conjunct2,
    THEN conjunct2, THEN conjunct2, THEN conjunct1, rule_format]
  note after_failure = V [THEN conjunct2, THEN conjunct2, THEN conjunct2, THEN conjunct2,
    THEN conjunct2, THEN conjunct2, THEN conjunct2, THEN conjunct1, rule_format]
  have k: "cache_key ?g' = cache_key sample_coord"
    using key r by (rule iffD2)
  have a: "requests ?s1 = [sample_coord]"
    using miss [THEN conjunct2, THEN conjunct1] by (simp add: sample_app_fields)
  have b: "cache_hit ?s2 ?g' = Some (js ''Seoul'')"
    using settled_ok [THEN conjunct2, THEN conjunct2, THEN conjunct2] k by (rule mp)
  have c0: "cache_hit sample_app sample_coord = None \<and> reverseGeocode seoul_response = Inr (Some (js ''Seoul''))
      \<and> js ''Seoul'' \<noteq> [] \<and> cache_key ?g' = cache_key sample_coord"
    using m0 ok k by simp
  have c: "requests (geocode_begin (js ''a.jpg-0-1000'') ?g' ?s2) = [sample_coord]"
    using after_ok [OF c0, THEN conjunct1] by (simp add: sample_app_fields)
  have p1: "photos ?s1
      = map (\<lambda>p. if photo_id p = js ''a.jpg-0-1000'' then p\<lparr>isGeocoding := True\<rparr> else p)
          (photos sample_app)"
    by (simp add: geocode_begin_miss [OF m0] update_photo_simps)
  have p2: "photos ?s2
      = map (\<lambda>p. if photo_id p = js ''a.jpg-0-1000'' then p\<lparr>locationText := js ''Seoul'', isGeocoding := False\<rparr> else p)
          (photos ?s1)"
    using settled_ok [THEN conjunct2, THEN conjunct2, THEN conjunct1] .
  have p3: "photos (geocode_begin (js ''a.jpg-0-1000'') ?g' ?s2)
      = map (\<lambda>p. if photo_id p = js ''a.jpg-0-1000'' then p\<lparr>locationText := js ''Seoul'', isGeocoding := False\<rparr> else p)
          (photos ?s2)"
    using after_ok [OF c0, THEN conjunct2] .
  have d: "map locationText (photos (geocode_begin (js ''a.jpg-0-1000'') ?g' ?s2)) = [js ''Seoul'']"
    unfolding p3 p2 p1 by (simp add: sample_app_fields sample_draft_def)
  have e0: "cache_hit sample_app sample_coord = None \<and> cache_key ?g' = cache_key sample_coord"
    using m0 k by simp
  have e: "requests (geocode_begin (js ''a.jpg-0-1000'') ?g' ?s1) = [sample_coord, ?g']"
    using in_flight [OF e0] by (simp add: sample_app_fields)
  have g0: "cache_hit sample_app sample_coord = None
      \<and> (\<forall>x. reverseGeocode NetworkFailure = Inr (Some x) \<longrightarrow> x = [])
      \<and> cache_key ?g' = cache_key sample_coord"
    using m0 f k by simp
  have g: "requests (geocode_begin (js ''a.jpg-0-1000'') ?g'
          (geocode_settle (js ''a.jpg-0-1000'') sample_coord NetworkFailure ?s1))
       = [sample_coord, ?g']"
    using after_failure [OF g0] by (simp add: sample_app_fields)
  show ?thesis
    using m0 k a b c d e g sample_key ok by simp
qed

subsection \<open>Draft identifiers\<close>

lemma decimal_inj: "decimal n = decimal m \<Longrightarrow> n = m"
proof (induction n arbitrary: m rule: decimal.induct)
  case (1 n)
  show ?case
  proof (cases "n < 10")
    case n: True
    show ?thesis
    proof (cases "m < 10")
      case True
      with n 1(2) show ?thesis by (simp add: decimal.simps [of n] decimal.simps [of m])
    next
      case False
      with n 1(2) decimal_digits [of "m div 10"] show ?thesis
        by (simp add: decimal.simps [of n] decimal.simps [of m])
    qed
  next
    case n: False
    show ?thesis
    proof (cases "m < 10")
      case True
      with n 1(2) decimal_digits [of "n div 10"] show ?thesis
        by (simp add: decimal.simps [of n] decimal.simps [of m])
    next
      case False
      with n 1(2) have "decimal (n div 10) = decimal (m div 10)" "n mod 10 = m mod 10"
        by (simp_all add: decimal.simps [of n] decimal.simps [of m])
      with 1(1) [OF n] have "n div 10 = m div 10" "n mod 10 = m mod 10" by blast+
      then show ?thesis by (metis div_mult_mod_eq)
    qed
  qed
qed

lemma split_at_last_hyphen:
  assumes "list_all is_digit ds" "list_all is_digit es" "xs @ 45 # ds = ys @ 45 # es"
  shows "xs = ys \<and> ds = es"
proof -
  have nd: "\<not> is_digit 45" by (simp add: is_digit_def)
  from assms(3) have "rev ds @ 45 # rev xs = rev es @ 45 # rev ys"
    by (metis rev.simps(2) rev_append append_assoc append_Cons append_Nil)
  then have "takeWhile is_digit (rev ds @ 45 # rev xs) = takeWhile is_digit (rev es @ 45 # rev ys)"
    by simp
  moreover have "takeWhile is_digit (rev ds @ 45 # rev xs) = rev ds"
    using assms(1) nd by (subst takeWhile_append2) (simp_all add: list_all_iff)
  moreover have "takeWhile is_digit (rev es @ 45 # rev ys) = rev es"
    using assms(2) nd by (subst takeWhile_append2) (simp_all add: list_all_iff)
  ultimately have "ds = es" by simp
  with assms(3) show ?thesis by simp
qed

lemma photo_id_draft_of_file:
  "photo_id (draft_of_file msgs url f i)
     = file_name f @ [45] @ decimal i @ [45] @ int_toString (lastModified f)"
  by (simp add: draft_of_file_def Let_def split: option.splits)

lemma ident_index:
  assumes "n1 @ [45] @ decimal i @ [45] @ int_toString l1 = n2 @ [45] @ decimal j @ [45] @ int_toString l2"
  shows "i = j"
proof -
  define d1 where "d1 = decimal (nat \<bar>l1\<bar>)"
  define d2 where "d2 = decimal (nat \<bar>l2\<bar>)"
  define p1 where "p1 = n1 @ [45] @ decimal i @ (if l1 < 0 then [45] else [])"
  define p2 where "p2 = n2 @ [45] @ decimal j @ (if l2 < 0 then [45] else [])"
  have dd: "list_all is_digit d1" "list_all is_digit d2"
    by (simp_all add: d1_def d2_def decimal_digits)
  have e1: "n1 @ [45] @ decimal i @ [45] @ int_toString l1 = p1 @ 45 # d1"
    by (simp add: p1_def d1_def int_toString_def abs_if)
  have e2: "n2 @ [45] @ decimal j @ [45] @ int_toString l2 = p2 @ 45 # d2"
    by (simp add: p2_def d2_def int_toString_def abs_if)
  from assms e1 e2 have "p1 @ 45 # d1 = p2 @ 45 # d2" by simp
  with dd have pp: "p1 = p2" using split_at_last_hyphen by blast
  have nd: "\<not> is_digit 45" by (simp add: is_digit_def)
  have lasti: "is_digit (last (decimal i))" "is_digit (last (decimal j))"
    using decimal_digits [of i] decimal_digits [of j] by (simp_all add: list_all_iff)
  have same_sign: "(l1 < 0) = (l2 < 0)"
  proof (rule ccontr)
    assume "(l1 < 0) \<noteq> (l2 < 0)"
    then consider "l1 < 0" "\<not> l2 < 0" | "\<not> l1 < 0" "l2 < 0" by blast
    then show False
    proof cases
      case 1
      with pp have "last (n1 @ [45] @ decimal i @ [45]) = last (n2 @ [45] @ decimal j)"
        by (simp add: p1_def p2_def)
      then have "45 = last (decimal j)" using decimal_digits [of j] by simp
      with lasti nd show False by simp
    next
      case 2
      with pp have "last (n1 @ [45] @ decimal i) = last (n2 @ [45] @ decimal j @ [45])"
        by (simp add: p1_def p2_def)
      then have "last (decimal i) = 45" using decimal_digits [of i] by simp
      with lasti nd show False by simp
    qed
  qed
  with pp have "n1 @ 45 # decimal i = n2 @ 45 # decimal j"
    by (simp add: p1_def p2_def split: if_splits)
  then have "decimal i = decimal j"
    using split_at_last_hyphen decimal_digits by blast
  then show ?thesis by (rule decimal_inj)
qed

lemma parse_files_ids_distinct:
  "distinct (map photo_id (parse_files msgs url files))"
proof -
  let ?ps = "zip files [0 ..< length files]"
  have d: "distinct ?ps" by (simp add: distinct_zipI2)
  have inj: "inj_on (\<lambda>(f, index). photo_id (draft_of_file msgs url f index)) (set ?ps)"
  proof (rule inj_onI, clarify)
    fix f i f' j
    assume a: "(f, i) \<in> set ?ps" "(f', j) \<in> set ?ps"
      and e: "photo_id (draft_of_file msgs url f i) = photo_id (draft_of_file msgs url f' j)"
    from e have ij: "i = j" unfolding photo_id_draft_of_file by (rule ident_index)
    from a obtain k k' where "k < length files" "f = files ! k" "i = [0 ..< length files] ! k"
      "k' < length files" "f' = files ! k'" "j = [0 ..< length files] ! k'"
      by (auto simp add: set_zip)
    with ij show "f = f' \<and> i = j" by simp
  qed
  have "map photo_id (parse_files msgs url files)
      = map (\<lambda>(f, index). photo_id (draft_of_file msgs url f index)) ?ps"
    by (simp add: parse_files_def comp_def case_prod_unfold)
  then show ?thesis using d inj by (simp add: distinct_map)
qed

lemma onDrop_ids:
  "map photo_id (photos (onDrop msgs url files s))
     = map photo_id (photos s) @ map photo_id (parse_files msgs url files)"
proof -
  have step: "map photo_id (photos (geocode_begin pid g st)) = map photo_id (photos st)" for pid g st
    by (auto simp add: geocode_begin_def update_photo_def comp_def split: option.splits)
  have fold: "map photo_id (photos (fold (\<lambda>item st. case gps item of None \<Rightarrow> st
                  | Some g \<Rightarrow> geocode_begin (photo_id item) g st) items st))
      = map photo_id (photos st)" for items st
    by (induction items arbitrary: st) (simp_all add: step split: option.splits)
  show ?thesis by (simp add: onDrop_def Let_def fold)
qed

text \<open>
  C9 (no two entries of the pending list share an id, however the files were ingested).
  The ordinal in the id is the position of the file within its own drop, not within the
  pending list. Within one drop the ids are pairwise distinct (\<open>parse_files_ids_distinct\<close>);
  a file dropped a second time gets the id it got the first time, and the pending list,
  whose ids serve as list keys and to find and update a draft, then holds the id twice.
\<close>

theorem same_file_dropped_twice_shares_id:
  "map photo_id (photos (onDrop sample_messages sample_url [sample_file]
       (onDrop sample_messages sample_url [sample_file] empty_app)))
     = [js ''a.jpg-0-1000'', js ''a.jpg-0-1000'']
   \<and> \<not> distinct (map photo_id (photos (onDrop sample_messages sample_url [sample_file]
       (onDrop sample_messages sample_url [sample_file] empty_app))))"
proof -
  have d: "decimal 0 = js ''0''" "decimal 1000 = js ''1000''"
    by (simp_all add: decimal.simps js_def)
  have "map photo_id (parse_files sample_messages sample_url [sample_file]) = [js ''a.jpg-0-1000'']"
    by (simp add: parse_files_def photo_id_draft_of_file sample_file_def int_toString_def d)
       (simp add: js_def)
  then show ?thesis by (simp add: onDrop_ids empty_app_def)
qed

subsection \<open>The batch run\<close>

lemma start_coord_fields:
  "ui (start_coord s) = s" "settled (start_coord s) = False" "gotAnyMessage (start_coord s) = False"
  "shouldFallbackToMainThread (start_coord s) = False" "startupTimeoutId (start_coord s) = True"
  "timeoutId (start_coord s) = True" "workerTerminated (start_coord s) = False"
  "results (start_coord s) = []"
  by (simp_all add: start_coord_def)

lemma step_terminated_worker: "workerTerminated c \<Longrightarrow> step msgs (Worker w) c = c"
  by (simp add: step_def)

lemma step_startup_timer_fallback:
  assumes "startupTimeoutId c" "\<not> gotAnyMessage c" "\<not> settled c"
  shows "step msgs StartupTimer c
     = c\<lparr>startupTimeoutId := False, shouldFallbackToMainThread := True,
          workerTerminated := True, settled := True\<rparr>"
  using assms by (simp add: step_def startupTimeout_def finish_def)

lemma insert_timer_set: "set (insert_timer d ev es) = insert (d, ev) (set es)"
  by (induction d ev es rule: insert_timer.induct) auto

lemma await_terminated_worker:
  assumes "workerTerminated c" "startupTimeoutId c" "\<not> gotAnyMessage c" "\<not> settled c"
  shows "\<exists>late. await_promise msgs
            (map snd (insert_timer 60000 OverallTimer
               (insert_timer 1500 StartupTimer (map (\<lambda>(t, w). (t, Worker w)) trace)))) c
          = (c\<lparr>startupTimeoutId := False, shouldFallbackToMainThread := True,
               workerTerminated := True, settled := True\<rparr>, late)
        \<and> OverallTimer \<in> set late"
proof (induction trace)
  case Nil
  then show ?case using assms by (simp add: step_startup_timer_fallback Let_def)
next
  case (Cons a trace)
  obtain t w where a: "a = (t, w)" by (cases a)
  show ?case
  proof (cases "1500 \<le> t")
    case True
    define r where "r = (t, Worker w) # map (\<lambda>(t, w). (t, Worker w)) trace"
    have i: "insert_timer 60000 OverallTimer (insert_timer 1500 StartupTimer r)
        = (1500, StartupTimer) # insert_timer 60000 OverallTimer r"
      using True by (simp add: r_def)
    have o: "OverallTimer \<in> set (map snd (insert_timer 60000 OverallTimer r))"
      by (simp add: insert_timer_set)
    have "await_promise msgs (map snd (insert_timer 60000 OverallTimer (insert_timer 1500 StartupTimer r))) c
        = (c\<lparr>startupTimeoutId := False, shouldFallbackToMainThread := True,
               workerTerminated := True, settled := True\<rparr>,
           map snd (insert_timer 60000 OverallTimer r))"
      unfolding i using assms by (simp add: step_startup_timer_fallback Let_def)
    with o show ?thesis unfolding a r_def by simp
  next
    case False
    with Cons show ?thesis using assms
      by (simp add: a step_terminated_worker Let_def)
  qed
qed


lemma fold_step_spent:
  assumes "workerTerminated c" "\<not> startupTimeoutId c" "\<not> timeoutId c"
  shows "fold (step msgs) evs c = c"
proof (induction evs)
  case Nil
  then show ?case by simp
next
  case (Cons ev evs)
  have "step msgs ev c = c" using assms by (cases ev) (simp_all add: step_def)
  with Cons show ?case by simp
qed

lemma fold_step_late_timer:
  assumes "workerTerminated c" "\<not> startupTimeoutId c" "timeoutId c" "settled c"
    "OverallTimer \<in> set evs"
  shows "fold (step msgs) evs c = c\<lparr>timeoutId := False, ui := (ui c)\<lparr>errorMsg := processFailed msgs\<rparr>\<rparr>"
  using assms(5)
proof (induction evs)
  case Nil
  then show ?case by simp
next
  case (Cons ev evs)
  show ?case
  proof (cases "ev = OverallTimer")
    case True
    have s: "step msgs OverallTimer c = c\<lparr>timeoutId := False, ui := (ui c)\<lparr>errorMsg := processFailed msgs\<rparr>\<rparr>"
      using assms(3,4) by (simp add: step_def overallTimeout_def finish_def)
    show ?thesis
      using assms(1,2) by (simp add: True s fold_step_spent)
  next
    case False
    then have "step msgs ev c = c" using assms(1,2) by (cases ev) (simp_all add: step_def)
    with Cons False show ?thesis by simp
  qed
qed

lemma schedule_terminated_worker:
  "\<exists>late. await_promise msgs (schedule trace) (effect_cleanup (start_coord s))
          = (\<lparr>ui = s, settled = True, gotAnyMessage = False, shouldFallbackToMainThread = True,
              startupTimeoutId = False, timeoutId = True, workerTerminated = True, results = []\<rparr>,
             late)
        \<and> OverallTimer \<in> set late"
  using await_terminated_worker [of "effect_cleanup (start_coord s)" msgs trace]
  by (simp add: schedule_def effect_cleanup_def start_coord_def)

lemma worker_run_is_fallback_run:
  assumes "canUseWorker e" "photos s \<noteq> []" "\<not> isProcessing s"
  shows "processPhotos msgs e s
     = (processPhotos msgs (e\<lparr>canUseWorker := False\<rparr>) s)\<lparr>errorMsg := processFailed msgs\<rparr>"
proof -
  define s1 where "s1 = s\<lparr>errorMsg := [], isProcessing := True,
                     progress := (0, length (photos s)), processed := []\<rparr>"
  define x where "x = processInMainThread (export e) (length (photos s)) 0 (photos s) (s1, [])"
  obtain late where a: "await_promise msgs (schedule (worker_trace e)) (effect_cleanup (start_coord s1))
          = (\<lparr>ui = s1, settled = True, gotAnyMessage = False, shouldFallbackToMainThread = True,
              startupTimeoutId = False, timeoutId = True, workerTerminated = True, results = []\<rparr>,
             late)" and l: "OverallTimer \<in> set late"
    using schedule_terminated_worker [of msgs "worker_trace e" s1] by blast
  have f: "finish_run msgs (e\<lparr>canUseWorker := False\<rparr>) x = finish_run msgs e x"
    by (cases x) (simp add: finish_run_def)
  have n: "processPhotos msgs (e\<lparr>canUseWorker := False\<rparr>) s = finish_run msgs e x"
    using assms(2,3) by (simp add: processPhotos_def Let_def s1_def [symmetric] x_def [symmetric] f)
  have w: "processPhotos msgs e s
      = ui (fold (step msgs) late
             (\<lparr>ui = finish_run msgs e x, settled = True, gotAnyMessage = False,
               shouldFallbackToMainThread = True, startupTimeoutId = False, timeoutId = True,
               workerTerminated = True, results = snd (snd x)\<rparr>))"
    using assms by (simp add: processPhotos_def Let_def s1_def [symmetric] a x_def [symmetric])
  show ?thesis
    unfolding w n by (subst fold_step_late_timer) (simp_all add: l)
qed


lemma isProcessing_finish_run: "isProcessing (finish_run msgs e x) = False"
  by (cases x) (simp add: finish_run_def Let_def)

lemma processPhotos_returns_idle: "isProcessing (processPhotos msgs e s) = isProcessing s"
proof (cases "photos s = [] \<or> isProcessing s")
  case True
  then show ?thesis by (simp add: processPhotos_def)
next
  case False
  have m: "isProcessing (processPhotos msgs e' s) = False" if "\<not> canUseWorker e'" for e'
    using False that by (simp add: processPhotos_def Let_def isProcessing_finish_run)
  show ?thesis
  proof (cases "canUseWorker e")
    case True
    with False have "processPhotos msgs e s
        = (processPhotos msgs (e\<lparr>canUseWorker := False\<rparr>) s)\<lparr>errorMsg := processFailed msgs\<rparr>"
      by (simp add: worker_run_is_fallback_run)
    with m [of "e\<lparr>canUseWorker := False\<rparr>"] False show ?thesis by simp
  next
    case cw: False
    with m [of e] False show ?thesis by simp
  qed
qed






text \<open>
  The handlers of the promise taken on their own, with a worker that is alive. An error
  message of the worker is recorded and clears both timers without resolving the promise,
  so no later event other than a completion or an error event resolves it; every sequence
  of events without an error message resolves it. In the component no message of the
  worker is handled, as shown above, so this path is not taken.
\<close>

text \<open>The script of the worker stops at the first photo that fails, with an error message.\<close>

lemma worker_stops_at_first_failure:
  "worker_messages failing_rasterize 1 0 (photos sample_app) = [ErrorMsg (js ''decode failed'')]"
  by (simp add: sample_app_def empty_app_def failing_rasterize_def)

lemma step_error_message:
  "\<not> workerTerminated c \<Longrightarrow>
   step msgs (Worker (Message (ErrorMsg m))) c
     = c\<lparr>gotAnyMessage := True, startupTimeoutId := False, ui := (ui c)\<lparr>errorMsg := m\<rparr>,
         timeoutId := False\<rparr>"
  by (simp add: step_def onmessage_def Let_def)

lemma step_quiet:
  assumes "\<not> settled c" "\<not> startupTimeoutId c" "\<not> timeoutId c" "quiet ev"
  shows "\<not> settled (step msgs ev c) \<and> \<not> startupTimeoutId (step msgs ev c) \<and> \<not> timeoutId (step msgs ev c)"
  using assms
  by (auto simp add: step_def quiet_def onmessage_def Let_def
      split: event.splits worker_event.splits WorkerMsg.splits)

lemma await_quiet:
  assumes "\<not> settled c" "\<not> startupTimeoutId c" "\<not> timeoutId c" "list_all quiet evs"
  shows "\<not> settled (fst (await_promise msgs evs c))"
  using assms
proof (induction evs arbitrary: c)
  case Nil
  then show ?case by simp
next
  case (Cons ev evs)
  from Cons.prems have q: "quiet ev" "list_all quiet evs" by simp_all
  from step_quiet [OF Cons.prems(1-3) q(1), of msgs]
  have s: "\<not> settled (step msgs ev c)" "\<not> startupTimeoutId (step msgs ev c)" "\<not> timeoutId (step msgs ev c)"
    by simp_all
  from Cons.IH [OF s q(2)] s(1) show ?case by (simp add: Let_def)
qed

lemma hangs_after_error_message:
  assumes "\<not> settled c" "\<not> workerTerminated c" "list_all quiet evs"
  shows "\<not> settled (fst (await_promise msgs (Worker (Message (ErrorMsg m)) # evs) c))"
proof -
  let ?c1 = "step msgs (Worker (Message (ErrorMsg m))) c"
  have "\<not> settled ?c1" "\<not> startupTimeoutId ?c1" "\<not> timeoutId ?c1"
    using assms(1,2) by (simp_all add: step_error_message)
  from await_quiet [OF this assms(3), of msgs] \<open>\<not> settled ?c1\<close>
  show ?thesis by (simp add: Let_def)
qed

lemma step_keeps_overall_timer:
  assumes "timeoutId c" "no_error_message ev" "ev \<noteq> OverallTimer"
  shows "settled (step msgs ev c) \<or> timeoutId (step msgs ev c)"
  using assms
  by (auto simp add: step_def no_error_message_def onmessage_def onerror_def onmessageerror_def
      startupTimeout_def finish_def Let_def split: event.splits worker_event.splits WorkerMsg.splits)

lemma step_overall_timer: "timeoutId c \<Longrightarrow> settled (step msgs OverallTimer c)"
  by (simp add: step_def overallTimeout_def finish_def)

lemma await_settles:
  assumes "timeoutId c" "list_all no_error_message evs" "OverallTimer \<in> set evs"
  shows "settled (fst (await_promise msgs evs c))"
  using assms
proof (induction evs arbitrary: c)
  case Nil
  then show ?case by simp
next
  case (Cons ev evs)
  show ?case
  proof (cases "settled (step msgs ev c)")
    case True
    then show ?thesis by (simp add: Let_def)
  next
    case False
    with step_overall_timer [OF Cons.prems(1)] have ne: "ev \<noteq> OverallTimer" by auto
    with Cons.prems have "OverallTimer \<in> set evs" "list_all no_error_message evs" "no_error_message ev"
      by simp_all
    moreover from step_keeps_overall_timer [OF Cons.prems(1) \<open>no_error_message ev\<close> ne, where msgs = msgs] False
    have "timeoutId (step msgs ev c)" by simp
    ultimately have "settled (fst (await_promise msgs evs (step msgs ev c)))"
      using Cons.IH by blast
    with False show ?thesis by (simp add: Let_def)
  qed
qed

lemma set_schedule:
  "set (schedule trace) = {OverallTimer, StartupTimer} \<union> (\<lambda>(t, e). Worker e) ` set trace"
  by (simp add: schedule_def insert_timer_set image_image case_prod_unfold)

lemma settles_without_error_message:
  assumes "list_all (\<lambda>(t, e). \<forall>m. e \<noteq> Message (ErrorMsg m)) trace"
  shows "settled (fst (await_promise msgs (schedule trace) (start_coord s)))"
proof (rule await_settles)
  show "timeoutId (start_coord s)" by (simp add: start_coord_fields)
  show "OverallTimer \<in> set (schedule trace)" by (simp add: set_schedule)
  from assms show "list_all no_error_message (schedule trace)"
    by (auto simp add: set_schedule list_all_iff no_error_message_def
        split: event.splits worker_event.splits WorkerMsg.splits)
qed


lemma kept_updates [simp]:
  "kept (s\<lparr>errorMsg := m\<rparr>) = kept s"
  "kept (s\<lparr>progress := g\<rparr>) = kept s"
  "kept (s\<lparr>processed := p\<rparr>) = kept s"
  "kept (s\<lparr>isProcessing := b\<rparr>) = kept s"
  by (simp_all add: kept_def)

lemma kept_processInMainThread:
  "kept (fst (snd (processInMainThread ex tot i items (s, rs)))) = kept s"
proof (induction items arbitrary: i s rs)
  case Nil
  then show ?case by simp
next
  case (Cons item items)
  then show ?case by (simp add: Let_def split: option.splits)
qed

lemma kept_finish_run: "kept (finish_run msgs e (thrown, s, rs)) = kept s"
  by (simp add: finish_run_def Let_def)

lemma kept_processPhotos: "kept (processPhotos msgs e s) = kept s"
proof (cases "photos s = [] \<or> isProcessing s")
  case True
  then show ?thesis by (simp add: processPhotos_def)
next
  case False
  have m: "kept (processPhotos msgs e' s) = kept s" if "\<not> canUseWorker e'" for e'
  proof -
    define s1 where "s1 = s\<lparr>errorMsg := [], isProcessing := True,
                     progress := (0, length (photos s)), processed := []\<rparr>"
    have k1: "kept s1 = kept s" by (simp add: s1_def)
    obtain thrown s2 rs where r: "processInMainThread (export e') (length (photos s)) 0 (photos s) (s1, [])
        = (thrown, s2, rs)" by (cases "processInMainThread (export e') (length (photos s)) 0 (photos s) (s1, [])")
    from kept_processInMainThread [of "export e'" "length (photos s)" 0 "photos s" s1 "[]"] r
    have "kept s2 = kept s1" by simp
    with False that r k1 show ?thesis
      by (simp add: processPhotos_def Let_def s1_def [symmetric] kept_finish_run)
  qed
  show ?thesis
  proof (cases "canUseWorker e")
    case True
    with False have "processPhotos msgs e s
        = (processPhotos msgs (e\<lparr>canUseWorker := False\<rparr>) s)\<lparr>errorMsg := processFailed msgs\<rparr>"
      by (simp add: worker_run_is_fallback_run)
    with m [of "e\<lparr>canUseWorker := False\<rparr>"] show ?thesis by simp
  next
    case cw: False
    with m [of e] show ?thesis by simp
  qed
qed

text \<open>
  C10 (a run leaves the pending drafts as they are): whatever the platform, the events of
  the worker and the outcome of the exports, the state after \<open>processPhotos\<close> has the
  pending list of the state before, and with it the id, name, time stamp, location text
  and source URL of every draft, as well as the geocoding cache; it differs from the
  state before at most in the results, the progress, the error message and the flag
  \<open>isProcessing\<close>, and that flag too is as before once the run has ended.
\<close>

theorem processPhotos_leaves_drafts_unchanged:
  "photos (processPhotos msgs e s) = photos s
   \<and> map photo_id (photos (processPhotos msgs e s)) = map photo_id (photos s)
   \<and> map name (photos (processPhotos msgs e s)) = map name (photos s)
   \<and> map shotAt (photos (processPhotos msgs e s)) = map shotAt (photos s)
   \<and> map locationText (photos (processPhotos msgs e s)) = map locationText (photos s)
   \<and> map sourceUrl (photos (processPhotos msgs e s)) = map sourceUrl (photos s)
   \<and> geocodeCache (processPhotos msgs e s) = geocodeCache s
   \<and> requests (processPhotos msgs e s) = requests s
   \<and> processPhotos msgs e s =
       s\<lparr>processed := processed (processPhotos msgs e s),
         progress := progress (processPhotos msgs e s),
         errorMsg := errorMsg (processPhotos msgs e s),
         isProcessing := isProcessing (processPhotos msgs e s)\<rparr>
   \<and> isProcessing (processPhotos msgs e s) = isProcessing s"
proof -
  have k: "photos (processPhotos msgs e s) = photos s"
    "geocodeCache (processPhotos msgs e s) = geocodeCache s"
    "requests (processPhotos msgs e s) = requests s"
    using kept_processPhotos [of msgs e s] by (simp_all add: kept_def)
  have "processPhotos msgs e s =
       s\<lparr>processed := processed (processPhotos msgs e s),
         progress := progress (processPhotos msgs e s),
         errorMsg := errorMsg (processPhotos msgs e s),
         isProcessing := isProcessing (processPhotos msgs e s)\<rparr>"
    by (rule app.equality) (simp_all add: k)
  with k processPhotos_returns_idle [of msgs e s] show ?thesis by simp
qed

theorem processPhotos_leaves_drafts_unchanged_witness:
  "photos (processPhotos sample_messages sample_env sample_app)
     = [sample_draft (js ''37.500000, 127.000000'')]
   \<and> processed (processPhotos sample_messages sample_env sample_app)
     = [\<lparr>result_id = js ''a.jpg-0-1000'', result_name = js ''a.jpg'', outputUrl = js ''blob:out'',
         result_shotAt = js ''2023-05-01 10:20:30'',
         result_locationText = js ''37.500000, 127.000000''\<rparr>]
   \<and> progress (processPhotos sample_messages sample_env sample_app) = (1, 1)
   \<and> \<not> canUseWorker sample_env
   \<and> isProcessing sample_app = False
   \<and> isProcessing (processPhotos sample_messages sample_env sample_app) = False"
proof -
  have p: "photos sample_app = [sample_draft (js ''37.500000, 127.000000'')]"
    "\<not> isProcessing sample_app" "\<not> canUseWorker sample_env"
    by (simp_all add: sample_app_def empty_app_def sample_env_def)
  have a: "photos (processPhotos sample_messages sample_env sample_app)
     = [sample_draft (js ''37.500000, 127.000000'')]"
    "isProcessing (processPhotos sample_messages sample_env sample_app) = False"
    using processPhotos_leaves_drafts_unchanged [of sample_messages sample_env sample_app]
    by (simp_all add: p)
  have b: "processPhotos sample_messages sample_env sample_app
     = sample_app\<lparr>errorMsg := [], isProcessing := False, progress := (1, 1),
         processed := [\<lparr>result_id = js ''a.jpg-0-1000'', result_name = js ''a.jpg'',
           outputUrl = js ''blob:out'', result_shotAt = js ''2023-05-01 10:20:30'',
           result_locationText = js ''37.500000, 127.000000''\<rparr>]\<rparr>"
    by (simp add: processPhotos_def Let_def p sample_env_def finish_run_def sample_draft_def)
  from a p show ?thesis by (simp add: b)
qed

end
